theory Spec2Isabelle
  imports
    Main
    "HOL-Library.Word"
    "HOL-Library.Char_ord"
    "HOL-Library.List_Lexorder"
    "HOL-Library.RBT"
begin

section \<open>The synchronous Redis client of libant (redis_client.cpp)\<close>

text \<open>
  The client object is a record; every method takes the object and returns it updated.
  The hiredis transport is the environment: what \<open>redisConnectWithTimeout\<close> and
  \<open>redisvCommand\<close> answer during one method call is a parameter of that call, and
  every call made to the transport is appended to a log kept beside the object, so that
  "no transport call was made" and "a fresh connection was attempted" are statements
  about that log.
\<close>

subsection \<open>Decimal rendering of the numbers streamed into error messages\<close>

fun show_nat :: "nat \<Rightarrow> string" where
  "show_nat n =
     (if n < 10 then [char_of (48 + n)]
      else show_nat (n div 10) @ [char_of (48 + n mod 10)])"

declare show_nat.simps [simp del]

definition show_int :: "int \<Rightarrow> string" where
  "show_int i = (if i < 0 then CHR ''-'' # show_nat (nat (- i)) else show_nat (nat i))"

subsection \<open>hiredis data: contexts and replies\<close>

text \<open>
  \<open>redisContext\<close>: only the two fields the client reads. \<open>err = 0\<close> means no error;
  \<open>errstr\<close> is a character array that the client streams as a C string.
\<close>

record redisContext =
  err :: int
  errstr :: string

text \<open>
  \<open>redisReply\<close> as the C struct: \<open>type\<close>, \<open>integer\<close>, \<open>str\<close> and \<open>element\<close>.
  \<open>str\<close> is \<open>None\<close> for a null pointer and otherwise holds the \<open>len\<close> payload
  bytes (hiredis stores a terminating NUL after them, which is not part of the list), so
  \<open>len\<close> and \<open>elements\<close> are the lengths of \<open>str\<close> and \<open>element\<close>.
\<close>

datatype redisReply =
  RedisReply (rtype: int) (integer: "64 word") (str: "string option") (element: "redisReply list")

definition len :: "redisReply \<Rightarrow> nat" where
  "len r = (case str r of None \<Rightarrow> 0 | Some s \<Rightarrow> length s)"

definition elements :: "redisReply \<Rightarrow> nat" where
  "elements r = length (element r)"

text \<open>The reply type codes of hiredis.h.\<close>

definition REDIS_REPLY_STRING :: int where "REDIS_REPLY_STRING = 1"
definition REDIS_REPLY_ARRAY :: int where "REDIS_REPLY_ARRAY = 2"
definition REDIS_REPLY_INTEGER :: int where "REDIS_REPLY_INTEGER = 3"
definition REDIS_REPLY_NIL :: int where "REDIS_REPLY_NIL = 4"
definition REDIS_REPLY_STATUS :: int where "REDIS_REPLY_STATUS = 5"
definition REDIS_REPLY_ERROR :: int where "REDIS_REPLY_ERROR = 6"

lemmas reply_type_defs =
  REDIS_REPLY_STRING_def REDIS_REPLY_ARRAY_def REDIS_REPLY_INTEGER_def
  REDIS_REPLY_NIL_def REDIS_REPLY_STATUS_def REDIS_REPLY_ERROR_def

text \<open>
  The two ways the client turns \<open>str\<close> into a \<open>std::string\<close>.
  \<open>string(p, n)\<close> and \<open>assign(p, n)\<close> copy exactly \<open>n\<close> bytes; with \<open>n = len\<close> that is
  the whole payload. Construction or assignment from the bare \<open>char*\<close>, and streaming
  it into a message, stop at the first NUL byte. hiredis gives string, status and error
  replies a non-null \<open>str\<close>; the other kinds have a null pointer, for which ISO C++
  leaves these operations undefined: the model takes the empty string, which is what
  libstdc++ inserts when a null \<open>char*\<close> is streamed.
\<close>

definition bytes_of :: "redisReply \<Rightarrow> string" where
  "bytes_of r = (case str r of None \<Rightarrow> [] | Some s \<Rightarrow> take (len r) s)"

definition c_string :: "string option \<Rightarrow> string" where
  "c_string p = (case p of None \<Rightarrow> [] | Some s \<Rightarrow> takeWhile (\<lambda>c. c \<noteq> CHR 0x00) s)"

subsection \<open>Commands and the transport\<close>

text \<open>
  The arguments handed to the printf-style \<open>exec\<close>: \<open>%b\<close> (bytes with their length),
  \<open>%d\<close>, \<open>%u\<close> and \<open>%lld\<close>.
\<close>

datatype arg = ArgB string | ArgD "32 word" | ArgU "32 word" | ArgLL "64 word"

text \<open>
  A command as the client issues it: \<open>exec (fmt, args)\<close>, \<open>execv (cmd, key, args)\<close>
  with an optional key, or \<open>execm (cmd, key, fields, with_values)\<close>.
\<close>

datatype command =
  Exec string "arg list"
| ExecV string "string option" "string list"
| ExecM string string "(string \<times> string) list" bool

text \<open>
  The log of calls made to the transport, each with its outcome: a connect succeeded
  when it returned a context with \<open>err = 0\<close>, a command when it returned a reply.
\<close>

datatype event =
  EvConnect string int bool
| EvCommand command bool
| EvFree

text \<open>
  What the transport answers during one method call: \<open>redisConnectWithTimeout\<close>
  returns a null pointer or a context; \<open>redisvCommand\<close> returns a reply, or a null
  pointer after storing \<open>err\<close> and \<open>errstr\<close> in the context.
\<close>

datatype connect_result = ConnectNull | ConnectCtx redisContext

datatype command_result = ReplyNull int string | ReplyOk redisReply

record transport =
  on_connect :: connect_result
  on_command :: command_result

subsection \<open>The client object\<close>

record RedisClient =
  m_ip_port :: string
  m_ip :: string
  m_port :: int
  m_context :: "redisContext option"
  m_errmsg :: string
  calls :: "event list"

text \<open>
  Modelled from the spec: \<open>set_errmsg\<close>, \<open>has_context\<close> and \<open>free_context\<close> are
  declared in redis_client.h, which is not among the sources. \<open>set_errmsg\<close> overwrites
  the last error message with the concatenation of its arguments (the call sites below
  pass the concatenation); \<open>has_context\<close> tests the handle for null; \<open>free_context\<close>
  is the spec's \<open>release\<close>: it releases the handle unconditionally and clears it, and is
  idempotent.
\<close>

definition set_errmsg :: "string \<Rightarrow> RedisClient \<Rightarrow> RedisClient" where
  "set_errmsg msg c = c\<lparr>m_errmsg := msg\<rparr>"

definition has_context :: "RedisClient \<Rightarrow> bool" where
  "has_context c = (m_context c \<noteq> None)"

definition free_context :: "RedisClient \<Rightarrow> RedisClient" where
  "free_context c =
     (case m_context c of
        None \<Rightarrow> c
      | Some x \<Rightarrow> c\<lparr>m_context := None, calls := calls c @ [EvFree]\<rparr>)"

text \<open>
  \<open>RedisClient::alloc_context\<close>. The host handed to \<open>redisConnectWithTimeout\<close>
  is \<open>m_ip.c_str()\<close>: the bytes of \<open>m_ip\<close> before its first NUL byte.
\<close>

definition alloc_context :: "transport \<Rightarrow> RedisClient \<Rightarrow> bool \<times> RedisClient" where
  "alloc_context env c =
     (case on_connect env of
        ConnectCtx x \<Rightarrow>
          (let c1 = c\<lparr>m_context := Some x,
                      calls := calls c @
                        [EvConnect (c_string (Some (m_ip c))) (m_port c) (err x = 0)]\<rparr>
           in if err x = 0 then (True, c1)
              else (False,
                    free_context
                      (set_errmsg (''Failed to connect to '' @ m_ip_port c1 @ '': ''
                                     @ c_string (Some (errstr x))
                                     @ '' ('' @ show_int (err x) @ '')'') c1)))
      | ConnectNull \<Rightarrow>
          (let c1 = c\<lparr>m_context := None,
                      calls := calls c @
                        [EvConnect (c_string (Some (m_ip c))) (m_port c) False]\<rparr>
           in (False,
               set_errmsg (''Failed to connect to '' @ m_ip_port c1
                             @ '': Cannot allocate redisContext'') c1)))"

text \<open>
  \<open>RedisClient::exec\<close>, in two parts. \<open>send_command\<close> is its second half: the
  call of \<open>redisvCommand\<close> and, for a null reply, the recording of the context's
  error and \<open>free_context\<close>. \<open>run_command\<close> is the whole body: it first obtains a
  handle through \<open>alloc_context\<close> when none is held and returns null when that fails.
  \<open>exec\<close> itself is \<open>run_command\<close> on its format string and arguments.
\<close>

definition send_command :: "transport \<Rightarrow> command \<Rightarrow> RedisClient \<Rightarrow> redisReply option \<times> RedisClient" where
  "send_command env cmd c =
     (case on_command env of
        ReplyOk r \<Rightarrow> (Some r, c\<lparr>calls := calls c @ [EvCommand cmd True]\<rparr>)
      | ReplyNull e s \<Rightarrow>
          (let c1 = c\<lparr>m_context := map_option (\<lambda>x. x\<lparr>err := e, errstr := s\<rparr>) (m_context c),
                      calls := calls c @ [EvCommand cmd False]\<rparr>
           in (None,
               free_context
                 (set_errmsg (c_string (Some s) @ '' ('' @ show_int e @ '')'') c1))))"

definition run_command :: "transport \<Rightarrow> command \<Rightarrow> RedisClient \<Rightarrow> redisReply option \<times> RedisClient" where
  "run_command env cmd c =
     (if \<not> has_context c then
        (case alloc_context env c of
           (False, c1) \<Rightarrow> (None, c1)
         | (True, c1) \<Rightarrow> send_command env cmd c1)
      else send_command env cmd c)"

definition exec :: "transport \<Rightarrow> string \<Rightarrow> arg list \<Rightarrow> RedisClient \<Rightarrow> redisReply option \<times> RedisClient" where
  "exec env fmt args c = run_command env (Exec fmt args) c"

text \<open>
  Modelled from the spec: \<open>execv\<close> and \<open>execm\<close> are declared in redis_client.h and
  defined outside the sources at hand. By the spec's connection manager every operation
  ensures a connection before its command and releases the handle when the transport
  call fails, so they run their command as \<open>exec\<close> does. \<open>execm\<close> sends the fields in
  the map's iteration order, with their values when \<open>with_values\<close> is set.
\<close>

definition execv :: "transport \<Rightarrow> string \<Rightarrow> string option \<Rightarrow> string list \<Rightarrow> RedisClient \<Rightarrow> redisReply option \<times> RedisClient" where
  "execv env cmd key args c = run_command env (ExecV cmd key args) c"

definition execm :: "transport \<Rightarrow> string \<Rightarrow> string \<Rightarrow> (string, string) rbt \<Rightarrow> bool \<Rightarrow> RedisClient \<Rightarrow> redisReply option \<times> RedisClient" where
  "execm env cmd key fs with_values c =
     run_command env (ExecM cmd key (RBT.entries fs) with_values) c"

subsection \<open>Construction\<close>

text \<open>
  \<open>find_last_of\<close> of \<open>std::string\<close>: the last position of the character, \<open>None\<close>
  for \<open>npos\<close>.
\<close>

definition find_last_of :: "string \<Rightarrow> char \<Rightarrow> nat option" where
  "find_last_of s ch =
     (case filter (\<lambda>i. s ! i = ch) (rev [0..<length s]) of
        [] \<Rightarrow> None
      | i # _ \<Rightarrow> Some i)"

text \<open>
  \<open>atoi\<close> of the C library: leading white space, an optional sign, then decimal digits
  up to the first other character. For values an \<open>int\<close> cannot hold ISO C leaves the
  result undefined; the model follows glibc, which returns \<open>strtol\<close>'s result (clamped
  to \<open>long\<close>) converted to \<open>int\<close>.
\<close>

definition isspace :: "char \<Rightarrow> bool" where
  "isspace ch = (ch \<in> set [CHR 0x20, CHR 0x09, CHR 0x0A, CHR 0x0B, CHR 0x0C, CHR 0x0D])"

definition isdigit :: "char \<Rightarrow> bool" where
  "isdigit ch = (48 \<le> (of_char ch :: nat) \<and> (of_char ch :: nat) \<le> 57)"

fun strtol_digits :: "int \<Rightarrow> string \<Rightarrow> int" where
  "strtol_digits acc [] = acc"
| "strtol_digits acc (ch # s) =
     (if isdigit ch then strtol_digits (acc * 10 + (of_char ch - 48)) s else acc)"

definition atoi :: "string \<Rightarrow> int" where
  "atoi s =
     (let s1 = dropWhile isspace s;
          v = (case s1 of
                 [] \<Rightarrow> 0
               | ch # t \<Rightarrow>
                   if ch = CHR ''-'' then - strtol_digits 0 t
                   else if ch = CHR ''+'' then strtol_digits 0 t
                   else strtol_digits 0 s1);
          l = max (- (2 ^ 63)) (min (2 ^ 63 - 1) v)
      in sint (word_of_int l :: 32 word))"

text \<open>
  \<open>RedisClient::RedisClient\<close>. \<open>Inl\<close> carries the message of the \<open>runtime_error\<close>
  thrown; \<open>Inr\<close> is the constructed object. The constructor ends with a call of
  \<open>alloc_context\<close> whose result it ignores.
\<close>

definition RedisClient_new :: "transport \<Rightarrow> string \<Rightarrow> string + RedisClient" where
  "RedisClient_new env ip_port =
     (case find_last_of ip_port (CHR '':'') of
        None \<Rightarrow> Inl (''Invalid ip_port ['' @ ip_port @ '']'')
      | Some pos \<Rightarrow>
          (let c0 = \<lparr>m_ip_port = ip_port, m_ip = take pos ip_port, m_port = 0,
                     m_context = None, m_errmsg = [], calls = []\<rparr>;
               pos1 = pos + 1
           in if pos1 < length ip_port then
                (let port = atoi (c_string (Some (drop pos1 ip_port)))
                 in if port \<le> 0 \<or> port > 65535
                    then Inl (''Invalid ip_port ['' @ ip_port @ '']'')
                    else Inr (snd (alloc_context env (c0\<lparr>m_port := port\<rparr>))))
              else Inr (snd (alloc_context env (c0\<lparr>m_port := 6379\<rparr>)))))"

subsection \<open>The operations\<close>

text \<open>
  The macro \<open>CHECK_REPLY\<close>: \<open>Inl\<close> is the object with which the enclosing method
  returns false, \<open>Inr\<close> the reply that passed the check.
\<close>

definition CHECK_REPLY :: "redisReply option \<Rightarrow> int \<Rightarrow> RedisClient \<Rightarrow> RedisClient + redisReply" where
  "CHECK_REPLY reply expectedReplyType c =
     (case reply of
        None \<Rightarrow> Inl c
      | Some r \<Rightarrow>
          if rtype r = expectedReplyType then Inr r
          else if rtype r = REDIS_REPLY_ERROR then Inl (set_errmsg (c_string (str r)) c)
          else Inl (set_errmsg (''Unexpected reply type '' @ show_int (rtype r)) c))"

definition select_db :: "32 word \<Rightarrow> transport \<Rightarrow> RedisClient \<Rightarrow> bool \<times> RedisClient" where
  "select_db dbidx env c =
     (case exec env ''SELECT %d'' [ArgD dbidx] c of
        (reply, c1) \<Rightarrow>
          (case CHECK_REPLY reply REDIS_REPLY_STATUS c1 of
             Inl c2 \<Rightarrow> (False, c2)
           | Inr r \<Rightarrow> (True, c1)))"

text \<open>The common tail of \<open>expire\<close> and \<open>expire_at\<close> after the reply check.\<close>

definition expire_result :: "redisReply \<Rightarrow> RedisClient \<Rightarrow> bool \<times> RedisClient" where
  "expire_result r c =
     (if integer r = 1 then (True, c)
      else (False,
            set_errmsg
              (''Key does not exist or the timeout could not be set. reply->integer is ''
                 @ show_int (sint (integer r))) c))"

definition expire :: "string \<Rightarrow> 32 word \<Rightarrow> transport \<Rightarrow> RedisClient \<Rightarrow> bool \<times> RedisClient" where
  "expire key seconds env c =
     (case exec env ''EXPIRE %b %u'' [ArgB key, ArgU seconds] c of
        (reply, c1) \<Rightarrow>
          (case CHECK_REPLY reply REDIS_REPLY_INTEGER c1 of
             Inl c2 \<Rightarrow> (False, c2)
           | Inr r \<Rightarrow> expire_result r c1))"

definition expire_at :: "string \<Rightarrow> 64 word \<Rightarrow> transport \<Rightarrow> RedisClient \<Rightarrow> bool \<times> RedisClient" where
  "expire_at key expired_tm env c =
     (case exec env ''EXPIREAT %b %lld'' [ArgB key, ArgLL expired_tm] c of
        (reply, c1) \<Rightarrow>
          (case CHECK_REPLY reply REDIS_REPLY_INTEGER c1 of
             Inl c2 \<Rightarrow> (False, c2)
           | Inr r \<Rightarrow> expire_result r c1))"

text \<open>
  \<open>ttl\<close>: the second argument is the caller's variable behind the reference, the
  second component of the result its value on return.
\<close>

definition ttl :: "string \<Rightarrow> 64 word \<Rightarrow> transport \<Rightarrow> RedisClient \<Rightarrow> bool \<times> 64 word \<times> RedisClient" where
  "ttl key ttl_var env c =
     (case exec env ''TTL %b'' [ArgB key] c of
        (reply, c1) \<Rightarrow>
          (case CHECK_REPLY reply REDIS_REPLY_INTEGER c1 of
             Inl c2 \<Rightarrow> (False, ttl_var, c2)
           | Inr r \<Rightarrow> (True, integer r, c1)))"

text \<open>
  Modelled from the spec: the enumeration \<open>SetOpType\<close> and the class
  \<open>ExpirationTime\<close> are declared in redis_client.h, which is not among the sources.
  \<open>SetOpType\<close> is \<open>{Anyhow, IfNotExist, IfExist}\<close> in this order, followed by the
  count \<open>kSetOpCnt\<close> that sizes \<open>kSetOpErrMsg\<close>; a C++ enumeration can carry other
  integers, so it is an \<open>int\<close> here. An \<open>ExpirationTime\<close> exposes
  \<open>remaining_seconds\<close>, computed against the clock at the moment of use: the value is
  what that call returns.
\<close>

definition kSetAnyhow :: int where "kSetAnyhow = 0"
definition kSetIfNotExist :: int where "kSetIfNotExist = 1"
definition kSetIfExist :: int where "kSetIfExist = 2"
definition kSetOpCnt :: int where "kSetOpCnt = 3"

lemmas set_op_type_defs = kSetAnyhow_def kSetIfNotExist_def kSetIfExist_def kSetOpCnt_def

datatype ExpirationTime = ExpirationTime (remaining_seconds: "64 word")

definition kSetOpErrMsg :: "string list" where
  "kSetOpErrMsg = [''Unknow error'', ''Key already exist'', ''Key not exist'']"

text \<open>
  \<open>RedisClient::set\<close>, in its three steps. \<open>set_send\<close> is the \<open>switch\<close> on
  \<open>op_type\<close> (the same for both branches of \<open>if (expire_tm)\<close>, with the \<open>EX\<close> part
  when a time to live is given); in the \<open>default\<close> case the reply stays null.
\<close>

definition set_send :: "string \<Rightarrow> string \<Rightarrow> 64 word option \<Rightarrow> int \<Rightarrow> transport \<Rightarrow> RedisClient \<Rightarrow> redisReply option \<times> RedisClient" where
  "set_send key val ttl_opt op_type env c =
     (case ttl_opt of
        Some t \<Rightarrow>
          (if op_type = kSetAnyhow then
             exec env ''SET %b %b EX %lld'' [ArgB key, ArgB val, ArgLL t] c
           else if op_type = kSetIfNotExist then
             exec env ''SET %b %b EX %lld NX'' [ArgB key, ArgB val, ArgLL t] c
           else if op_type = kSetIfExist then
             exec env ''SET %b %b EX %lld XX'' [ArgB key, ArgB val, ArgLL t] c
           else (None, set_errmsg (''Unsupported op_type '' @ show_int op_type) c))
      | None \<Rightarrow>
          (if op_type = kSetAnyhow then
             exec env ''SET %b %b'' [ArgB key, ArgB val] c
           else if op_type = kSetIfNotExist then
             exec env ''SET %b %b NX'' [ArgB key, ArgB val] c
           else if op_type = kSetIfExist then
             exec env ''SET %b %b XX'' [ArgB key, ArgB val] c
           else (None, set_errmsg (''Unsupported op_type '' @ show_int op_type) c)))"

text \<open>The classification of the reply at the end of \<open>set\<close>.\<close>

definition set_classify :: "int \<Rightarrow> redisReply option \<Rightarrow> RedisClient \<Rightarrow> bool \<times> RedisClient" where
  "set_classify op_type reply c =
     (case reply of
        None \<Rightarrow> (False, c)
      | Some r \<Rightarrow>
          if rtype r = REDIS_REPLY_STATUS then (True, c)
          else if rtype r = REDIS_REPLY_NIL then
            (False, set_errmsg (kSetOpErrMsg ! nat op_type) c)
          else if rtype r = REDIS_REPLY_ERROR then
            (False, set_errmsg (c_string (str r)) c)
          else (False, set_errmsg (''Unexpected reply type '' @ show_int (rtype r)) c))"

text \<open>\<open>expire_tm\<close> is \<open>None\<close> for a null pointer.\<close>

definition set_op :: "string \<Rightarrow> string \<Rightarrow> ExpirationTime option \<Rightarrow> int \<Rightarrow> transport \<Rightarrow> RedisClient \<Rightarrow> bool \<times> RedisClient" where
  "set_op key val expire_tm op_type env c =
     (case expire_tm of
        Some e \<Rightarrow>
          (let t = remaining_seconds e
           in if sint t \<le> 0 then (False, set_errmsg ''Invalid expire time'' c)
              else (case set_send key val (Some t) op_type env c of
                      (reply, c1) \<Rightarrow> set_classify op_type reply c1))
      | None \<Rightarrow>
          (case set_send key val None op_type env c of
             (reply, c1) \<Rightarrow> set_classify op_type reply c1))"

text \<open>
  \<open>get\<close>: \<open>val\<close> is the caller's string behind the reference; \<open>key_exists\<close> is
  \<open>None\<close> for a null pointer and otherwise the caller's flag.
\<close>

definition get :: "string \<Rightarrow> string \<Rightarrow> bool option \<Rightarrow> transport \<Rightarrow> RedisClient \<Rightarrow> bool \<times> string \<times> bool option \<times> RedisClient" where
  "get key val key_exists env c =
     (case exec env ''GET %b'' [ArgB key] c of
        (None, c1) \<Rightarrow> (False, val, key_exists, c1)
      | (Some r, c1) \<Rightarrow>
          if rtype r = REDIS_REPLY_STRING then
            (True, bytes_of r, map_option (\<lambda>_. True) key_exists, c1)
          else if rtype r = REDIS_REPLY_NIL then
            (True, [], map_option (\<lambda>_. False) key_exists, c1)
          else if rtype r = REDIS_REPLY_ERROR then
            (False, val, key_exists, set_errmsg (c_string (str r)) c1)
          else (False, val, key_exists,
                set_errmsg (''Unexpected reply type '' @ show_int (rtype r)) c1))"

text \<open>
  The counting set operations. \<open>cnt\<close> is \<open>None\<close> for a null pointer and otherwise the
  caller's variable.
\<close>

definition sadd :: "string \<Rightarrow> string list \<Rightarrow> 64 word option \<Rightarrow> transport \<Rightarrow> RedisClient \<Rightarrow> bool \<times> 64 word option \<times> RedisClient" where
  "sadd key vals cnt env c =
     (case execv env ''SADD'' (Some key) vals c of
        (reply, c1) \<Rightarrow>
          (case CHECK_REPLY reply REDIS_REPLY_INTEGER c1 of
             Inl c2 \<Rightarrow> (False, cnt, c2)
           | Inr r \<Rightarrow> (True, map_option (\<lambda>_. integer r) cnt, c1)))"

definition scard :: "string \<Rightarrow> 64 word \<Rightarrow> transport \<Rightarrow> RedisClient \<Rightarrow> bool \<times> 64 word \<times> RedisClient" where
  "scard key cnt env c =
     (case exec env ''SCARD %b'' [ArgB key] c of
        (reply, c1) \<Rightarrow>
          (case CHECK_REPLY reply REDIS_REPLY_INTEGER c1 of
             Inl c2 \<Rightarrow> (False, cnt, c2)
           | Inr r \<Rightarrow> (True, integer r, c1)))"

text \<open>
  \<open>arr_reply_to_vector\<close>: the result is cleared, then receives \<open>string(str, len)\<close> of
  each of the first \<open>reply_num\<close> replies.
\<close>

definition arr_reply_to_vector :: "redisReply list \<Rightarrow> nat \<Rightarrow> string list \<Rightarrow> string list" where
  "arr_reply_to_vector replies reply_num result = [] @ map bytes_of (take reply_num replies)"

definition sdiff :: "string list \<Rightarrow> string list \<Rightarrow> transport \<Rightarrow> RedisClient \<Rightarrow> bool \<times> string list \<times> RedisClient" where
  "sdiff keys result env c =
     (case execv env ''SDIFF'' None keys c of
        (reply, c1) \<Rightarrow>
          (case CHECK_REPLY reply REDIS_REPLY_ARRAY c1 of
             Inl c2 \<Rightarrow> (False, result, c2)
           | Inr r \<Rightarrow> (True, arr_reply_to_vector (element r) (elements r) result, c1)))"

definition sdiff_store :: "string \<Rightarrow> string list \<Rightarrow> 64 word option \<Rightarrow> transport \<Rightarrow> RedisClient \<Rightarrow> bool \<times> 64 word option \<times> RedisClient" where
  "sdiff_store dest keys cnt env c =
     (case execv env ''SDIFFSTORE'' (Some dest) keys c of
        (reply, c1) \<Rightarrow>
          (case CHECK_REPLY reply REDIS_REPLY_INTEGER c1 of
             Inl c2 \<Rightarrow> (False, cnt, c2)
           | Inr r \<Rightarrow> (True, map_option (\<lambda>_. integer r) cnt, c1)))"

definition sinter :: "string list \<Rightarrow> string list \<Rightarrow> transport \<Rightarrow> RedisClient \<Rightarrow> bool \<times> string list \<times> RedisClient" where
  "sinter keys result env c =
     (case execv env ''SINTER'' None keys c of
        (reply, c1) \<Rightarrow>
          (case CHECK_REPLY reply REDIS_REPLY_ARRAY c1 of
             Inl c2 \<Rightarrow> (False, result, c2)
           | Inr r \<Rightarrow> (True, arr_reply_to_vector (element r) (elements r) result, c1)))"

definition sinter_store :: "string \<Rightarrow> string list \<Rightarrow> 64 word option \<Rightarrow> transport \<Rightarrow> RedisClient \<Rightarrow> bool \<times> 64 word option \<times> RedisClient" where
  "sinter_store dest keys cnt env c =
     (case execv env ''SINTERSTORE'' (Some dest) keys c of
        (reply, c1) \<Rightarrow>
          (case CHECK_REPLY reply REDIS_REPLY_INTEGER c1 of
             Inl c2 \<Rightarrow> (False, cnt, c2)
           | Inr r \<Rightarrow> (True, map_option (\<lambda>_. integer r) cnt, c1)))"

text \<open>\<open>sismember\<close>: the conversion of \<open>reply->integer\<close> to \<open>bool\<close> is "not zero".\<close>

definition sismember :: "string \<Rightarrow> string \<Rightarrow> bool \<Rightarrow> transport \<Rightarrow> RedisClient \<Rightarrow> bool \<times> bool \<times> RedisClient" where
  "sismember key val is_member env c =
     (case exec env ''SISMEMBER %b %b'' [ArgB key, ArgB val] c of
        (reply, c1) \<Rightarrow>
          (case CHECK_REPLY reply REDIS_REPLY_INTEGER c1 of
             Inl c2 \<Rightarrow> (False, is_member, c2)
           | Inr r \<Rightarrow> (True, integer r \<noteq> 0, c1)))"

subsection \<open>Hash operations\<close>

text \<open>
  A \<open>std::map<string, string>\<close> is a red-black tree ordered by \<open>operator<\<close> of
  \<open>std::string\<close> (bytes compared as unsigned values, a proper prefix first): an
  \<open>rbt\<close> over \<open>string\<close> with the lexicographic order on lists of characters.
  Iterating from \<open>begin()\<close> to \<open>end()\<close> visits \<open>RBT.keys\<close> in order, and
  \<open>it->second = v\<close> replaces the value stored at the iterator's key.

  The loop of \<open>hget\<close>: \<open>ks\<close> are the keys the iterator still has to visit, \<open>n\<close> is the
  index into \<open>reply->element\<close>. The two failing branches read \<open>reply->str\<close> and
  \<open>reply->type\<close>, the fields of the array reply, as the source does.
\<close>

fun hget_loop :: "redisReply \<Rightarrow> string list \<Rightarrow> nat \<Rightarrow> (string, string) rbt \<Rightarrow> RedisClient \<Rightarrow> bool \<times> (string, string) rbt \<times> RedisClient" where
  "hget_loop reply [] n fs c = (True, fs, c)"
| "hget_loop reply (k # ks) n fs c =
     (let r = element reply ! n
      in if rtype r = REDIS_REPLY_STRING then
           hget_loop reply ks (n + 1) (RBT.map_entry k (\<lambda>_. c_string (str r)) fs) c
         else if rtype r = REDIS_REPLY_NIL then
           hget_loop reply ks (n + 1) (RBT.map_entry k (\<lambda>_. []) fs) c
         else if rtype r = REDIS_REPLY_ERROR then
           (False, fs, set_errmsg (c_string (str reply)) c)
         else (False, fs, set_errmsg (''Unexpected reply type '' @ show_int (rtype reply)) c))"

definition hget :: "string \<Rightarrow> (string, string) rbt \<Rightarrow> transport \<Rightarrow> RedisClient \<Rightarrow> bool \<times> (string, string) rbt \<times> RedisClient" where
  "hget key fs env c =
     (case execm env ''HMGET'' key fs False c of
        (reply, c1) \<Rightarrow>
          (case CHECK_REPLY reply REDIS_REPLY_ARRAY c1 of
             Inl c2 \<Rightarrow> (False, fs, c2)
           | Inr r \<Rightarrow>
               if elements r \<noteq> length (RBT.keys fs) then
                 (False, fs,
                  set_errmsg (''Invalid number of elements returned! Expected ''
                                @ show_nat (length (RBT.keys fs)) @ '', Returned ''
                                @ show_nat (elements r)) c1)
               else hget_loop r (RBT.keys fs) 0 fs c1))"

definition hset :: "string \<Rightarrow> (string, string) rbt \<Rightarrow> transport \<Rightarrow> RedisClient \<Rightarrow> bool \<times> RedisClient" where
  "hset key fs env c =
     (case execm env ''HMSET'' key fs True c of
        (reply, c1) \<Rightarrow>
          (case CHECK_REPLY reply REDIS_REPLY_STATUS c1 of
             Inl c2 \<Rightarrow> (False, c2)
           | Inr r \<Rightarrow> (True, c1)))"

subsection \<open>Any operation, and the state of the connection\<close>

text \<open>
  One call of a public method, with its arguments; \<open>run\<close> performs it and keeps the
  boolean result and the object.
\<close>

datatype operation =
  SelectDb "32 word"
| Expire string "32 word"
| ExpireAt string "64 word"
| Ttl string "64 word"
| SetOp string string "ExpirationTime option" int
| Get string string "bool option"
| SAdd string "string list" "64 word option"
| SCard string "64 word"
| SDiff "string list" "string list"
| SDiffStore string "string list" "64 word option"
| SInter "string list" "string list"
| SInterStore string "string list" "64 word option"
| SIsMember string string bool
| HGet string "(string, string) rbt"
| HSet string "(string, string) rbt"

fun run :: "operation \<Rightarrow> transport \<Rightarrow> RedisClient \<Rightarrow> bool \<times> RedisClient" where
  "run (SelectDb dbidx) env c = select_db dbidx env c"
| "run (Expire key seconds) env c = expire key seconds env c"
| "run (ExpireAt key expired_tm) env c = expire_at key expired_tm env c"
| "run (Ttl key ttl_var) env c = (case ttl key ttl_var env c of (ok, _, c1) \<Rightarrow> (ok, c1))"
| "run (SetOp key val expire_tm op_type) env c = set_op key val expire_tm op_type env c"
| "run (Get key val key_exists) env c =
     (case get key val key_exists env c of (ok, _, _, c1) \<Rightarrow> (ok, c1))"
| "run (SAdd key vals cnt) env c = (case sadd key vals cnt env c of (ok, _, c1) \<Rightarrow> (ok, c1))"
| "run (SCard key cnt) env c = (case scard key cnt env c of (ok, _, c1) \<Rightarrow> (ok, c1))"
| "run (SDiff keys result) env c = (case sdiff keys result env c of (ok, _, c1) \<Rightarrow> (ok, c1))"
| "run (SDiffStore dest keys cnt) env c =
     (case sdiff_store dest keys cnt env c of (ok, _, c1) \<Rightarrow> (ok, c1))"
| "run (SInter keys result) env c = (case sinter keys result env c of (ok, _, c1) \<Rightarrow> (ok, c1))"
| "run (SInterStore dest keys cnt) env c =
     (case sinter_store dest keys cnt env c of (ok, _, c1) \<Rightarrow> (ok, c1))"
| "run (SIsMember key val is_member) env c =
     (case sismember key val is_member env c of (ok, _, c1) \<Rightarrow> (ok, c1))"
| "run (HGet key fs) env c = (case hget key fs env c of (ok, _, c1) \<Rightarrow> (ok, c1))"
| "run (HSet key fs) env c = hset key fs env c"

text \<open>
  Reading the log: after a connect the handle is live when the connect succeeded; a
  command keeps it live when it returned a reply; freeing ends it. \<open>handle_live\<close> of a
  log therefore says that its last connect succeeded and that nothing failed or was
  freed since.
\<close>

fun live_after :: "bool \<Rightarrow> event \<Rightarrow> bool" where
  "live_after b (EvConnect ip port ok) = ok"
| "live_after b (EvCommand cmd ok) = (b \<and> ok)"
| "live_after b EvFree = False"

definition handle_live :: "event list \<Rightarrow> bool" where
  "handle_live es = foldl live_after False es"

text \<open>A transport call that failed: a connect or a command logged with outcome false.\<close>

fun failed_call :: "event \<Rightarrow> bool" where
  "failed_call (EvConnect ip port ok) = (\<not> ok)"
| "failed_call (EvCommand cmd ok) = (\<not> ok)"
| "failed_call EvFree = False"

text \<open>
  The state invariant: the handle is non-null exactly when the log says it is live,
  and a held context carries no error.
\<close>

definition conn_inv :: "RedisClient \<Rightarrow> bool" where
  "conn_inv c =
     ((m_context c \<noteq> None) = handle_live (calls c) \<and>
      (case m_context c of None \<Rightarrow> True | Some x \<Rightarrow> err x = 0))"

text \<open>
  What the transport is set to answer. \<open>connect_ok\<close>: a connect would return a context
  without error. \<open>transport_answers env c r\<close>: a command issued from \<open>c\<close> gets the reply
  \<open>r\<close>, because a handle is held or can be obtained, and \<open>redisvCommand\<close> returns \<open>r\<close>.
\<close>

definition connect_ok :: "transport \<Rightarrow> bool" where
  "connect_ok env = (case on_connect env of ConnectCtx x \<Rightarrow> err x = 0 | ConnectNull \<Rightarrow> False)"

definition transport_answers :: "transport \<Rightarrow> RedisClient \<Rightarrow> redisReply \<Rightarrow> bool" where
  "transport_answers env c r = ((has_context c \<or> connect_ok env) \<and> on_command env = ReplyOk r)"

text \<open>The calls an operation added to the log.\<close>

definition new_calls :: "RedisClient \<Rightarrow> RedisClient \<Rightarrow> event list" where
  "new_calls c c' = drop (length (calls c)) (calls c')"

subsection \<open>Concrete transports and objects\<close>

definition env_reply :: "redisReply \<Rightarrow> transport" where
  "env_reply r = \<lparr>on_connect = ConnectCtx \<lparr>err = 0, errstr = []\<rparr>, on_command = ReplyOk r\<rparr>"

definition env_down :: transport where
  "env_down = \<lparr>on_connect = ConnectCtx \<lparr>err = 2, errstr = ''Connection refused''\<rparr>,
              on_command = ReplyNull 3 ''Server closed the connection''\<rparr>"

definition env_broken :: transport where
  "env_broken = \<lparr>on_connect = ConnectCtx \<lparr>err = 0, errstr = []\<rparr>,
                on_command = ReplyNull 3 ''Server closed the connection''\<rparr>"

definition client_connected :: RedisClient where
  "client_connected =
     \<lparr>m_ip_port = ''127.0.0.1:6379'', m_ip = ''127.0.0.1'', m_port = 6379,
      m_context = Some \<lparr>err = 0, errstr = []\<rparr>, m_errmsg = [],
      calls = [EvConnect ''127.0.0.1'' 6379 True]\<rparr>"

definition client_disconnected :: RedisClient where
  "client_disconnected =
     \<lparr>m_ip_port = ''127.0.0.1:6379'', m_ip = ''127.0.0.1'', m_port = 6379,
      m_context = None, m_errmsg = [],
      calls = [EvConnect ''127.0.0.1'' 6379 False]\<rparr>"

definition reply_status :: redisReply where
  "reply_status = RedisReply REDIS_REPLY_STATUS 0 (Some ''OK'') []"

definition reply_nil :: redisReply where
  "reply_nil = RedisReply REDIS_REPLY_NIL 0 None []"

definition reply_integer :: "64 word \<Rightarrow> redisReply" where
  "reply_integer i = RedisReply REDIS_REPLY_INTEGER i None []"

definition reply_string :: "string \<Rightarrow> redisReply" where
  "reply_string s = RedisReply REDIS_REPLY_STRING 0 (Some s) []"

definition reply_error :: "string \<Rightarrow> redisReply" where
  "reply_error s = RedisReply REDIS_REPLY_ERROR 0 (Some s) []"

definition reply_array :: "redisReply list \<Rightarrow> redisReply" where
  "reply_array rs = RedisReply REDIS_REPLY_ARRAY 0 None rs"

lemmas fixture_defs =
  env_reply_def env_down_def env_broken_def client_connected_def client_disconnected_def
  reply_status_def reply_nil_def reply_integer_def reply_string_def reply_error_def
  reply_array_def

text \<open>The three values of \<open>SetOpType\<close> that \<open>set\<close> recognises.\<close>

definition valid_op_type :: "int \<Rightarrow> bool" where
  "valid_op_type op_type =
     (op_type = kSetAnyhow \<or> op_type = kSetIfNotExist \<or> op_type = kSetIfExist)"

text \<open>
  The element kinds the loop of \<open>hget\<close> accepts, and the value it stores for them.
\<close>

definition fillable :: "redisReply \<Rightarrow> bool" where
  "fillable r = (rtype r = REDIS_REPLY_STRING \<or> rtype r = REDIS_REPLY_NIL)"

definition field_value :: "redisReply \<Rightarrow> string" where
  "field_value r = (if rtype r = REDIS_REPLY_STRING then c_string (str r) else [])"

definition fields_a :: "(string, string) rbt" where
  "fields_a = RBT.insert ''a'' ''x'' RBT.empty"

definition fields_ab :: "(string, string) rbt" where
  "fields_ab = RBT.insert ''b'' ''y'' (RBT.insert ''a'' ''x'' RBT.empty)"

text \<open>
  Devices for the connection invariant. \<open>same_conn\<close>: two objects hold the same handle
  and log. \<open>ok_command\<close>: a logged command that returned a reply. \<open>run_all\<close>: a sequence
  of operations, each with what the transport answers during it. \<open>through\<close>: an operation's
  result went through one command, leaving handle and log as that command left them and
  returning true only if it returned a reply. \<open>untouched\<close>: an operation returned false
  without touching handle or log.
\<close>

definition same_conn :: "RedisClient \<Rightarrow> RedisClient \<Rightarrow> bool" where
  "same_conn c c' = (calls c' = calls c \<and> m_context c' = m_context c)"

definition ok_command :: "event \<Rightarrow> bool" where
  "ok_command e = (case e of EvCommand cmd ok \<Rightarrow> ok | _ \<Rightarrow> False)"

fun run_all :: "(operation \<times> transport) list \<Rightarrow> RedisClient \<Rightarrow> RedisClient" where
  "run_all [] c = c"
| "run_all ((op, env) # steps) c = run_all steps (snd (run op env c))"

definition through :: "transport \<Rightarrow> command \<Rightarrow> RedisClient \<Rightarrow> bool \<times> RedisClient \<Rightarrow> bool" where
  "through env cmd c res =
     (same_conn (snd (run_command env cmd c)) (snd res) \<and>
      (fst res \<longrightarrow> fst (run_command env cmd c) \<noteq> None))"

definition untouched :: "RedisClient \<Rightarrow> bool \<times> RedisClient \<Rightarrow> bool" where
  "untouched c res = (\<not> fst res \<and> same_conn c (snd res))"

text \<open>
  The operations that get as far as the transport: all but a \<open>set\<close> call whose expiry
  or \<open>op_type\<close> is refused first.
\<close>

fun reaches_transport :: "operation \<Rightarrow> bool" where
  "reaches_transport (SetOp key val expire_tm op_type) =
     (valid_op_type op_type \<and>
      (case expire_tm of None \<Rightarrow> True | Some e \<Rightarrow> 0 < sint (remaining_seconds e)))"
| "reaches_transport op = True"

text \<open>
  An errored connect: the transport returned a context whose \<open>err\<close> is set, which
  \<open>alloc_context\<close> then releases.
\<close>

definition connect_errored :: "transport \<Rightarrow> bool" where
  "connect_errored env =
     (case on_connect env of ConnectCtx x \<Rightarrow> err x \<noteq> 0 | ConnectNull \<Rightarrow> False)"

definition client_refused :: RedisClient where
  "client_refused =
     \<lparr>m_ip_port = ''10.0.0.1:6380'', m_ip = ''10.0.0.1'', m_port = 6380,
      m_context = None,
      m_errmsg = ''Failed to connect to 10.0.0.1:6380: Connection refused (2)'',
      calls = [EvConnect ''10.0.0.1'' 6380 False, EvFree]\<rparr>"

section \<open>Properties\<close>

subsection \<open>Running a command\<close>

lemma m_errmsg_set_errmsg [simp]: "m_errmsg (set_errmsg msg c) = msg"
  by (simp add: set_errmsg_def)

lemma alloc_context_fst: "fst (alloc_context env c) = connect_ok env"
  by (simp add: alloc_context_def connect_ok_def Let_def split: connect_result.splits)

lemma alloc_context_ok_errmsg:
  "connect_ok env \<Longrightarrow> m_errmsg (snd (alloc_context env c)) = m_errmsg c"
  by (simp add: alloc_context_def connect_ok_def Let_def split: connect_result.splits)

lemma send_command_fst:
  "fst (send_command env cmd c) =
     (case on_command env of ReplyOk r \<Rightarrow> Some r | ReplyNull e s \<Rightarrow> None)"
  by (simp add: send_command_def Let_def split: command_result.splits)

lemma send_command_ok_errmsg:
  "on_command env = ReplyOk r \<Longrightarrow> m_errmsg (snd (send_command env cmd c)) = m_errmsg c"
  by (simp add: send_command_def)

text \<open>A command returns the reply \<open>r\<close> exactly when the transport answers \<open>r\<close>.\<close>

lemma run_command_fst:
  "fst (run_command env cmd c) = Some r \<longleftrightarrow> transport_answers env c r"
proof (cases "has_context c")
  case True
  then show ?thesis
    by (simp add: run_command_def transport_answers_def send_command_fst
          split: command_result.splits)
next
  case False
  obtain b c1 where a: "alloc_context env c = (b, c1)"
    by (cases "alloc_context env c")
  then have b: "b = connect_ok env"
    using alloc_context_fst [of env c] by simp
  show ?thesis
    using False a b
    by (cases b)
      (simp_all add: run_command_def transport_answers_def send_command_fst
         split: command_result.splits)
qed

lemma run_command_errmsg:
  assumes "transport_answers env c r"
  shows "m_errmsg (snd (run_command env cmd c)) = m_errmsg c"
proof (cases "has_context c")
  case True
  then show ?thesis
    using assms by (simp add: run_command_def transport_answers_def send_command_ok_errmsg)
next
  case False
  then have ok: "connect_ok env" and rep: "on_command env = ReplyOk r"
    using assms by (simp_all add: transport_answers_def)
  obtain b c1 where a: "alloc_context env c = (b, c1)"
    by (cases "alloc_context env c")
  then have b: "b"
    using alloc_context_fst [of env c] ok by simp
  have "m_errmsg c1 = m_errmsg c"
    using alloc_context_ok_errmsg [OF ok, of c] a by simp
  then show ?thesis
    using False a b rep by (simp add: run_command_def send_command_ok_errmsg)
qed

lemma run_command_answer:
  assumes "transport_answers env c r"
  obtains c1 where "run_command env cmd c = (Some r, c1)" and "m_errmsg c1 = m_errmsg c"
proof -
  have "fst (run_command env cmd c) = Some r"
    using assms by (simp add: run_command_fst)
  moreover have "m_errmsg (snd (run_command env cmd c)) = m_errmsg c"
    by (rule run_command_errmsg [OF assms])
  ultimately show ?thesis
    using that [of "snd (run_command env cmd c)"] by (metis prod.collapse)
qed

lemma bytes_of_Some: "str r = Some s \<Longrightarrow> bytes_of r = s"
  by (simp add: bytes_of_def len_def)

lemma transport_answers_connected:
  "transport_answers (env_reply r) client_connected r"
  by (simp add: transport_answers_def has_context_def env_reply_def client_connected_def)

subsection \<open>GET\<close>

text \<open>
  C4. Whenever the transport answers \<open>get\<close> with a reply \<open>r\<close>: a string reply makes
  \<open>get\<close> return true with \<open>val\<close> set to exactly the \<open>len\<close> bytes of the reply (bytes
  after an embedded NUL included) and the caller's \<open>*key_exists\<close>, when the pointer is
  not null, set to true; a nil reply makes it return true with \<open>val\<close> empty and
  \<open>*key_exists\<close> set to false; an error reply makes it return false with the error
  text as the message; any other reply makes it return false with the message
  "Unexpected reply type" followed by the type code.
\<close>

theorem get_classifies_reply:
  assumes ans: "transport_answers env c r"
    and res: "get key val key_exists env c = (ok, val', key_exists', c')"
  shows "(rtype r = REDIS_REPLY_STRING \<longrightarrow>
            ok \<and> val' = bytes_of r \<and> (\<forall>s. str r = Some s \<longrightarrow> val' = s) \<and>
            key_exists' = map_option (\<lambda>_. True) key_exists) \<and>
         (rtype r = REDIS_REPLY_NIL \<longrightarrow>
            ok \<and> val' = [] \<and> key_exists' = map_option (\<lambda>_. False) key_exists) \<and>
         (rtype r = REDIS_REPLY_ERROR \<longrightarrow>
            \<not> ok \<and> m_errmsg c' = c_string (str r)) \<and>
         (rtype r \<noteq> REDIS_REPLY_STRING \<and> rtype r \<noteq> REDIS_REPLY_NIL \<and>
          rtype r \<noteq> REDIS_REPLY_ERROR \<longrightarrow>
            \<not> ok \<and> m_errmsg c' = ''Unexpected reply type '' @ show_int (rtype r))"
proof -
  obtain c1 where run: "run_command env (Exec ''GET %b'' [ArgB key]) c = (Some r, c1)"
    by (rule run_command_answer [OF ans])
  show ?thesis
    using res run by (auto simp add: get_def exec_def bytes_of_Some reply_type_defs)
qed

theorem get_classifies_reply_witness:
  "transport_answers (env_reply (reply_string [CHR ''a'', CHR 0x00, CHR ''b''])) client_connected
     (reply_string [CHR ''a'', CHR 0x00, CHR ''b'']) \<and>
   fst (get ''k'' ''old'' (Some False)
          (env_reply (reply_string [CHR ''a'', CHR 0x00, CHR ''b''])) client_connected) \<and>
   fst (snd (get ''k'' ''old'' (Some False)
          (env_reply (reply_string [CHR ''a'', CHR 0x00, CHR ''b''])) client_connected))
     = [CHR ''a'', CHR 0x00, CHR ''b''] \<and>
   fst (snd (snd (get ''k'' ''old'' (Some False)
          (env_reply (reply_string [CHR ''a'', CHR 0x00, CHR ''b''])) client_connected)))
     = Some True"
proof -
  let ?r = "reply_string [CHR ''a'', CHR 0x00, CHR ''b'']"
  let ?g = "get ''k'' ''old'' (Some False) (env_reply ?r) client_connected"
  have h: "transport_answers (env_reply ?r) client_connected ?r"
    by (rule transport_answers_connected)
  have g: "?g = (fst ?g, fst (snd ?g), fst (snd (snd ?g)), snd (snd (snd ?g)))"
    by simp
  have t: "rtype ?r = REDIS_REPLY_STRING" and p: "str ?r = Some [CHR ''a'', CHR 0x00, CHR ''b'']"
    by (simp_all add: reply_string_def)
  from get_classifies_reply [OF h g] t
  have "fst ?g \<and> (\<forall>s. str ?r = Some s \<longrightarrow> fst (snd ?g) = s) \<and>
        fst (snd (snd ?g)) = map_option (\<lambda>_. True) (Some False)"
    by blast
  with h p show ?thesis
    by simp
qed

subsection \<open>EXPIRE and EXPIREAT\<close>

lemma expire_tail:
  "fst (case CHECK_REPLY reply REDIS_REPLY_INTEGER c1 of
          Inl c2 \<Rightarrow> (False, c2)
        | Inr r \<Rightarrow> expire_result r c1)
   \<longleftrightarrow> (\<exists>r. reply = Some r \<and> rtype r = REDIS_REPLY_INTEGER \<and> integer r = 1)"
  by (auto simp add: CHECK_REPLY_def expire_result_def split: option.splits if_splits)

lemma expire_true_iff:
  "fst (expire key seconds env c) \<longleftrightarrow>
     (\<exists>r. transport_answers env c r \<and> rtype r = REDIS_REPLY_INTEGER \<and> integer r = 1)"
proof -
  let ?cmd = "Exec ''EXPIRE %b %u'' [ArgB key, ArgU seconds]"
  have "fst (expire key seconds env c) \<longleftrightarrow>
     (\<exists>r. fst (run_command env ?cmd c) = Some r \<and> rtype r = REDIS_REPLY_INTEGER \<and> integer r = 1)"
    by (cases "run_command env ?cmd c") (simp add: expire_def exec_def expire_tail)
  then show ?thesis
    by (simp only: run_command_fst)
qed

lemma expire_at_true_iff:
  "fst (expire_at key expired_tm env c) \<longleftrightarrow>
     (\<exists>r. transport_answers env c r \<and> rtype r = REDIS_REPLY_INTEGER \<and> integer r = 1)"
proof -
  let ?cmd = "Exec ''EXPIREAT %b %lld'' [ArgB key, ArgLL expired_tm]"
  have "fst (expire_at key expired_tm env c) \<longleftrightarrow>
     (\<exists>r. fst (run_command env ?cmd c) = Some r \<and> rtype r = REDIS_REPLY_INTEGER \<and> integer r = 1)"
    by (cases "run_command env ?cmd c") (simp add: expire_at_def exec_def expire_tail)
  then show ?thesis
    by (simp only: run_command_fst)
qed

lemma expire_tail_msg:
  "m_errmsg (snd (case CHECK_REPLY (Some r) REDIS_REPLY_INTEGER c1 of
                    Inl c2 \<Rightarrow> (False, c2)
                  | Inr r \<Rightarrow> expire_result r c1)) =
     (if rtype r = REDIS_REPLY_INTEGER then
        if integer r = 1 then m_errmsg c1
        else ''Key does not exist or the timeout could not be set. reply->integer is ''
               @ show_int (sint (integer r))
      else if rtype r = REDIS_REPLY_ERROR then c_string (str r)
      else ''Unexpected reply type '' @ show_int (rtype r))"
  by (simp add: CHECK_REPLY_def expire_result_def)

lemma expire_msg:
  assumes ans: "transport_answers env c r"
  shows "m_errmsg (snd (expire key seconds env c)) =
     (if rtype r = REDIS_REPLY_INTEGER then
        if integer r = 1 then m_errmsg c
        else ''Key does not exist or the timeout could not be set. reply->integer is ''
               @ show_int (sint (integer r))
      else if rtype r = REDIS_REPLY_ERROR then c_string (str r)
      else ''Unexpected reply type '' @ show_int (rtype r))"
proof -
  obtain c1 where "run_command env (Exec ''EXPIRE %b %u'' [ArgB key, ArgU seconds]) c = (Some r, c1)"
    and "m_errmsg c1 = m_errmsg c"
    by (rule run_command_answer [OF ans])
  then show ?thesis
    by (simp add: expire_def exec_def expire_tail_msg)
qed

lemma expire_at_msg:
  assumes ans: "transport_answers env c r"
  shows "m_errmsg (snd (expire_at key expired_tm env c)) =
     (if rtype r = REDIS_REPLY_INTEGER then
        if integer r = 1 then m_errmsg c
        else ''Key does not exist or the timeout could not be set. reply->integer is ''
               @ show_int (sint (integer r))
      else if rtype r = REDIS_REPLY_ERROR then c_string (str r)
      else ''Unexpected reply type '' @ show_int (rtype r))"
proof -
  obtain c1 where "run_command env (Exec ''EXPIREAT %b %lld'' [ArgB key, ArgLL expired_tm]) c = (Some r, c1)"
    and "m_errmsg c1 = m_errmsg c"
    by (rule run_command_answer [OF ans])
  then show ?thesis
    by (simp add: expire_at_def exec_def expire_tail_msg)
qed

text \<open>
  C7. \<open>expire\<close> and \<open>expire_at\<close> return true exactly when the transport answers with
  an integer reply equal to 1. When it answers with the integer 0 they return false with
  the message "Key does not exist or the timeout could not be set. reply->integer is 0";
  when it answers with a reply that is not an integer they return false with the error
  text of an error reply, and with "Unexpected reply type" and the type code otherwise.
\<close>

theorem expire_true_iff_integer_one:
  "(fst (expire key seconds env c) \<longleftrightarrow>
      (\<exists>r. transport_answers env c r \<and> rtype r = REDIS_REPLY_INTEGER \<and> integer r = 1)) \<and>
   (fst (expire_at key expired_tm env c) \<longleftrightarrow>
      (\<exists>r. transport_answers env c r \<and> rtype r = REDIS_REPLY_INTEGER \<and> integer r = 1)) \<and>
   (\<forall>r. transport_answers env c r \<and> rtype r = REDIS_REPLY_INTEGER \<and> integer r = 0 \<longrightarrow>
      \<not> fst (expire key seconds env c) \<and> \<not> fst (expire_at key expired_tm env c) \<and>
      m_errmsg (snd (expire key seconds env c)) =
        ''Key does not exist or the timeout could not be set. reply->integer is 0'' \<and>
      m_errmsg (snd (expire_at key expired_tm env c)) =
        ''Key does not exist or the timeout could not be set. reply->integer is 0'') \<and>
   (\<forall>r. transport_answers env c r \<and> rtype r \<noteq> REDIS_REPLY_INTEGER \<longrightarrow>
      \<not> fst (expire key seconds env c) \<and> \<not> fst (expire_at key expired_tm env c) \<and>
      m_errmsg (snd (expire key seconds env c)) =
        (if rtype r = REDIS_REPLY_ERROR then c_string (str r)
         else ''Unexpected reply type '' @ show_int (rtype r)) \<and>
      m_errmsg (snd (expire_at key expired_tm env c)) =
        (if rtype r = REDIS_REPLY_ERROR then c_string (str r)
         else ''Unexpected reply type '' @ show_int (rtype r)))"
proof -
  have zero: "show_int (sint (0 :: 64 word)) = ''0''"
    by code_simp
  have unique: "r' = r" if "transport_answers env c r" "transport_answers env c r'" for r r'
    using that by (simp add: transport_answers_def)
  have a: "\<not> fst (expire key seconds env c) \<and> \<not> fst (expire_at key expired_tm env c)"
    if "transport_answers env c r" "\<not> (rtype r = REDIS_REPLY_INTEGER \<and> integer r = 1)" for r
    using that unique [OF that(1)] unfolding expire_true_iff expire_at_true_iff by blast
  have b: "\<not> fst (expire key seconds env c) \<and> \<not> fst (expire_at key expired_tm env c) \<and>
      m_errmsg (snd (expire key seconds env c)) =
        ''Key does not exist or the timeout could not be set. reply->integer is 0'' \<and>
      m_errmsg (snd (expire_at key expired_tm env c)) =
        ''Key does not exist or the timeout could not be set. reply->integer is 0''"
    if "transport_answers env c r" "rtype r = REDIS_REPLY_INTEGER" "integer r = 0" for r
    using that a [of r] expire_msg [OF that(1)] expire_at_msg [OF that(1)] zero by simp
  have d: "\<not> fst (expire key seconds env c) \<and> \<not> fst (expire_at key expired_tm env c) \<and>
      m_errmsg (snd (expire key seconds env c)) =
        (if rtype r = REDIS_REPLY_ERROR then c_string (str r)
         else ''Unexpected reply type '' @ show_int (rtype r)) \<and>
      m_errmsg (snd (expire_at key expired_tm env c)) =
        (if rtype r = REDIS_REPLY_ERROR then c_string (str r)
         else ''Unexpected reply type '' @ show_int (rtype r))"
    if "transport_answers env c r" "rtype r \<noteq> REDIS_REPLY_INTEGER" for r
    using that a [of r] expire_msg [OF that(1)] expire_at_msg [OF that(1)] by simp
  show ?thesis
    using expire_true_iff expire_at_true_iff b d by blast
qed

theorem expire_true_iff_integer_one_witness:
  "transport_answers (env_reply (reply_integer 1)) client_connected (reply_integer 1) \<and>
   fst (expire ''k'' 60 (env_reply (reply_integer 1)) client_connected) \<and>
   fst (expire_at ''k'' 1700000000 (env_reply (reply_integer 1)) client_connected) \<and>
   transport_answers (env_reply (reply_integer 0)) client_connected (reply_integer 0) \<and>
   \<not> fst (expire ''k'' 60 (env_reply (reply_integer 0)) client_connected) \<and>
   m_errmsg (snd (expire ''k'' 60 (env_reply (reply_integer 0)) client_connected)) =
     ''Key does not exist or the timeout could not be set. reply->integer is 0'' \<and>
   transport_answers (env_reply reply_status) client_connected reply_status \<and>
   \<not> fst (expire_at ''k'' 1700000000 (env_reply reply_status) client_connected) \<and>
   m_errmsg (snd (expire_at ''k'' 1700000000 (env_reply reply_status) client_connected)) =
     ''Unexpected reply type 5''"
proof -
  have five: "''Unexpected reply type '' @ show_int (rtype reply_status) = ''Unexpected reply type 5''"
    by code_simp
  have t1: "rtype (reply_integer i) = REDIS_REPLY_INTEGER \<and> integer (reply_integer i) = i" for i
    by (simp add: reply_integer_def)
  have t5: "rtype reply_status \<noteq> REDIS_REPLY_INTEGER \<and> rtype reply_status \<noteq> REDIS_REPLY_ERROR"
    by (simp add: reply_status_def reply_type_defs)
  note h1 = transport_answers_connected [of "reply_integer 1"]
  note h0 = transport_answers_connected [of "reply_integer 0"]
  note h5 = transport_answers_connected [of reply_status]
  note w1 = expire_true_iff_integer_one
    [of "''k''" 60 "env_reply (reply_integer 1)" client_connected 1700000000]
  note w0 = expire_true_iff_integer_one
    [of "''k''" 60 "env_reply (reply_integer 0)" client_connected 1700000000]
  note w5 = expire_true_iff_integer_one
    [of "''k''" 60 "env_reply reply_status" client_connected 1700000000]
  have p1: "fst (expire ''k'' 60 (env_reply (reply_integer 1)) client_connected) \<and>
            fst (expire_at ''k'' 1700000000 (env_reply (reply_integer 1)) client_connected)"
    using w1 h1 t1 [of 1] by blast
  have p0: "\<not> fst (expire ''k'' 60 (env_reply (reply_integer 0)) client_connected) \<and>
        m_errmsg (snd (expire ''k'' 60 (env_reply (reply_integer 0)) client_connected)) =
          ''Key does not exist or the timeout could not be set. reply->integer is 0''"
    using w0 h0 t1 [of 0] by blast
  have p5: "\<not> fst (expire_at ''k'' 1700000000 (env_reply reply_status) client_connected) \<and>
        m_errmsg (snd (expire_at ''k'' 1700000000 (env_reply reply_status) client_connected)) =
          (if rtype reply_status = REDIS_REPLY_ERROR then c_string (str reply_status)
           else ''Unexpected reply type '' @ show_int (rtype reply_status))"
    using w5 h5 t5 by blast
  show ?thesis
    using h1 h0 h5 p1 p0 p5 t5 five by simp
qed

subsection \<open>SET\<close>

lemma set_send_valid:
  assumes "valid_op_type op_type"
  shows "\<exists>cmd. set_send key val ttl_opt op_type env c = run_command env cmd c"
  using assms by (cases ttl_opt) (auto simp add: valid_op_type_def set_send_def exec_def)

lemma set_send_invalid:
  assumes "\<not> valid_op_type op_type"
  shows "set_send key val ttl_opt op_type env c =
           (None, set_errmsg (''Unsupported op_type '' @ show_int op_type) c)"
  using assms by (cases ttl_opt) (auto simp add: valid_op_type_def set_send_def)

lemma kSetOpErrMsg_nth:
  "kSetOpErrMsg ! nat kSetAnyhow = ''Unknow error''"
  "kSetOpErrMsg ! nat kSetIfNotExist = ''Key already exist''"
  "kSetOpErrMsg ! nat kSetIfExist = ''Key not exist''"
  by (simp_all add: kSetOpErrMsg_def set_op_type_defs)

lemma set_op_unfold:
  assumes "\<forall>e. expire_tm = Some e \<longrightarrow> 0 < sint (remaining_seconds e)"
  shows "set_op key val expire_tm op_type env c =
     (case set_send key val (map_option remaining_seconds expire_tm) op_type env c of
        (reply, c1) \<Rightarrow> set_classify op_type reply c1)"
  using assms by (cases expire_tm) (auto simp add: set_op_def Let_def)

lemma set_op_expired:
  assumes "sint (remaining_seconds e) \<le> 0"
  shows "set_op key val (Some e) op_type env c = (False, set_errmsg ''Invalid expire time'' c)"
  using assms by (simp add: set_op_def Let_def)

lemma set_op_unsupported:
  assumes inv: "\<not> valid_op_type op_type"
    and live: "\<forall>e. expire_tm = Some e \<longrightarrow> 0 < sint (remaining_seconds e)"
  shows "set_op key val expire_tm op_type env c =
           (False, set_errmsg (''Unsupported op_type '' @ show_int op_type) c)"
  by (simp add: set_op_unfold [OF live] set_send_invalid [OF inv] set_classify_def)

lemma set_errmsg_conn [simp]:
  "calls (set_errmsg msg c) = calls c" "m_context (set_errmsg msg c) = m_context c"
  by (simp_all add: set_errmsg_def)

lemma new_calls_same [simp]: "calls c' = calls c \<Longrightarrow> new_calls c c' = []"
  by (simp add: new_calls_def)

text \<open>
  C3. For a recognised \<open>op_type\<close> and an expiry that is absent or has a positive
  remaining time, whenever the transport answers \<open>set\<close> with a reply \<open>r\<close>: a status reply
  returns true; a nil reply returns false with the message of \<open>kSetOpErrMsg\<close> for the
  \<open>op_type\<close> ("Unknow error", "Key already exist", "Key not exist"); an error reply
  returns false with the error text as the message; any other reply returns false with
  "Unexpected reply type" and the type code.
\<close>

theorem set_classifies_reply:
  assumes valid: "valid_op_type op_type"
    and live: "\<forall>e. expire_tm = Some e \<longrightarrow> 0 < sint (remaining_seconds e)"
    and ans: "transport_answers env c r"
    and res: "set_op key val expire_tm op_type env c = (ok, c')"
  shows "(rtype r = REDIS_REPLY_STATUS \<longrightarrow> ok) \<and>
         (rtype r = REDIS_REPLY_NIL \<longrightarrow>
            \<not> ok \<and>
            m_errmsg c' =
              (if op_type = kSetAnyhow then ''Unknow error''
               else if op_type = kSetIfNotExist then ''Key already exist''
               else ''Key not exist'')) \<and>
         (rtype r = REDIS_REPLY_ERROR \<longrightarrow> \<not> ok \<and> m_errmsg c' = c_string (str r)) \<and>
         (rtype r \<noteq> REDIS_REPLY_STATUS \<and> rtype r \<noteq> REDIS_REPLY_NIL \<and>
          rtype r \<noteq> REDIS_REPLY_ERROR \<longrightarrow>
            \<not> ok \<and> m_errmsg c' = ''Unexpected reply type '' @ show_int (rtype r))"
proof -
  obtain cmd where send:
    "set_send key val (map_option remaining_seconds expire_tm) op_type env c
       = run_command env cmd c"
    using set_send_valid [OF valid] by blast
  obtain c1 where run: "run_command env cmd c = (Some r, c1)"
    by (rule run_command_answer [OF ans])
  have cls: "set_classify op_type (Some r) c1 = (ok, c')"
    using res send run by (simp add: set_op_unfold [OF live])
  have msg: "kSetOpErrMsg ! nat op_type =
              (if op_type = kSetAnyhow then ''Unknow error''
               else if op_type = kSetIfNotExist then ''Key already exist''
               else ''Key not exist'')"
    using valid kSetOpErrMsg_nth by (auto simp add: valid_op_type_def)
  show ?thesis
    using cls msg by (auto simp add: set_classify_def reply_type_defs)
qed

theorem set_classifies_reply_witness:
  "valid_op_type kSetIfNotExist \<and>
   transport_answers (env_reply reply_nil) client_connected reply_nil \<and>
   \<not> fst (set_op ''k'' ''v'' None kSetIfNotExist (env_reply reply_nil) client_connected) \<and>
   m_errmsg (snd (set_op ''k'' ''v'' None kSetIfNotExist (env_reply reply_nil) client_connected))
     = ''Key already exist''"
proof -
  let ?s = "set_op ''k'' ''v'' None kSetIfNotExist (env_reply reply_nil) client_connected"
  have v: "valid_op_type kSetIfNotExist"
    by (simp add: valid_op_type_def)
  have l: "\<forall>e. (None :: ExpirationTime option) = Some e \<longrightarrow> 0 < sint (remaining_seconds e)"
    by simp
  have h: "transport_answers (env_reply reply_nil) client_connected reply_nil"
    by (rule transport_answers_connected)
  have s: "?s = (fst ?s, snd ?s)"
    by simp
  have t: "rtype reply_nil = REDIS_REPLY_NIL"
    by (simp add: reply_nil_def)
  have n: "kSetIfNotExist \<noteq> kSetAnyhow"
    by (simp add: set_op_type_defs)
  from set_classifies_reply [OF v l h s] t
  have "\<not> fst ?s \<and>
        m_errmsg (snd ?s) =
          (if kSetIfNotExist = kSetAnyhow then ''Unknow error''
           else if kSetIfNotExist = kSetIfNotExist then ''Key already exist''
           else ''Key not exist'')"
    by blast
  with v h n show ?thesis
    by simp
qed

text \<open>
  C6 as stated does not hold for \<open>expire\<close>: that method takes a plain unsigned
  number of seconds, not an \<open>ExpirationTime\<close>, and validates nothing. With the
  non-positive remaining time 0 converted to its parameter type, \<open>expire\<close> sends
  \<open>EXPIRE k 0\<close> to the transport and returns true when the reply is the integer 1.
\<close>

theorem expire_unvalidated_counterexample:
  "sint (remaining_seconds (ExpirationTime 0)) \<le> 0 \<and>
   expire ''k'' (ucast (remaining_seconds (ExpirationTime 0)))
     (env_reply (reply_integer 1)) client_connected =
     (True,
      client_connected
        \<lparr>calls := [EvConnect ''127.0.0.1'' 6379 True,
                   EvCommand (Exec ''EXPIRE %b %u'' [ArgB ''k'', ArgU 0]) True]\<rparr>)"
  by (simp add: expire_def exec_def run_command_def has_context_def send_command_def
        fixture_defs CHECK_REPLY_def expire_result_def)

lemma run_command_logs: "new_calls c (snd (run_command env cmd c)) \<noteq> []"
  by (auto simp add: new_calls_def run_command_def alloc_context_def send_command_def
        has_context_def free_context_def set_errmsg_def Let_def
      split: connect_result.splits command_result.splits option.splits)

lemma expire_calls:
  "calls (snd (expire key seconds env c)) =
     calls (snd (run_command env (Exec ''EXPIRE %b %u'' [ArgB key, ArgU seconds]) c))"
  by (cases "run_command env (Exec ''EXPIRE %b %u'' [ArgB key, ArgU seconds]) c")
    (auto simp add: expire_def exec_def CHECK_REPLY_def expire_result_def
       split: option.splits)

text \<open>
  C6, amended. A \<open>set\<close> call whose \<open>ExpirationTime\<close> has a non-positive remaining
  time fails validation: it returns false with the message "Invalid expire time", makes
  no call to the transport and leaves the handle as it was. \<open>expire\<close> has no such
  check: every \<open>expire\<close> call, whatever its number of seconds, calls the transport.
\<close>

theorem expired_set_fails_before_transport:
  "(sint (remaining_seconds e) \<le> 0 \<longrightarrow>
      \<not> fst (set_op key val (Some e) op_type env c) \<and>
      m_errmsg (snd (set_op key val (Some e) op_type env c)) = ''Invalid expire time'' \<and>
      new_calls c (snd (set_op key val (Some e) op_type env c)) = [] \<and>
      m_context (snd (set_op key val (Some e) op_type env c)) = m_context c) \<and>
   new_calls c (snd (expire key seconds env c)) \<noteq> []"
proof -
  have "new_calls c (snd (expire key seconds env c)) \<noteq> []"
    using run_command_logs [of c env "Exec ''EXPIRE %b %u'' [ArgB key, ArgU seconds]"]
    by (simp add: new_calls_def expire_calls)
  then show ?thesis
    by (simp add: set_op_expired)
qed

theorem expired_set_fails_before_transport_witness:
  "sint (remaining_seconds (ExpirationTime (- 5))) \<le> 0 \<and>
   \<not> fst (set_op ''k'' ''v'' (Some (ExpirationTime (- 5))) kSetAnyhow
            (env_reply reply_status) client_connected) \<and>
   m_errmsg (snd (set_op ''k'' ''v'' (Some (ExpirationTime (- 5))) kSetAnyhow
            (env_reply reply_status) client_connected)) = ''Invalid expire time'' \<and>
   new_calls client_connected
     (snd (set_op ''k'' ''v'' (Some (ExpirationTime (- 5))) kSetAnyhow
            (env_reply reply_status) client_connected)) = []"
proof -
  have h: "sint (remaining_seconds (ExpirationTime (- 5))) \<le> 0"
    by simp
  show ?thesis
    using h expired_set_fails_before_transport
      [of "ExpirationTime (- 5)" "''k''" "''v''" kSetAnyhow "env_reply reply_status"
          client_connected 0]
    by blast
qed

text \<open>
  C8 as stated does not hold when the call also carries an expiry whose remaining
  time is not positive: the expiry is validated before \<open>op_type\<close> is looked at, and the
  message recorded is "Invalid expire time".
\<close>

theorem unsupported_op_type_counterexample:
  "\<not> valid_op_type 7 \<and>
   set_op ''k'' ''v'' (Some (ExpirationTime 0)) 7 (env_reply reply_status) client_connected =
     (False, client_connected\<lparr>m_errmsg := ''Invalid expire time''\<rparr>)"
  by (simp add: valid_op_type_def set_op_type_defs set_op_def set_errmsg_def)

text \<open>
  C8, amended. A \<open>set\<close> call whose \<open>op_type\<close> is none of the three recognised values
  returns false without any call to the transport and leaves the handle as it was. The
  message recorded is "Unsupported op_type" followed by the number when the expiry is
  absent or has a positive remaining time, and "Invalid expire time" otherwise.
\<close>

theorem unsupported_op_type_rejected:
  assumes "\<not> valid_op_type op_type"
  shows "\<not> fst (set_op key val expire_tm op_type env c) \<and>
         new_calls c (snd (set_op key val expire_tm op_type env c)) = [] \<and>
         m_context (snd (set_op key val expire_tm op_type env c)) = m_context c \<and>
         m_errmsg (snd (set_op key val expire_tm op_type env c)) =
           (if \<exists>e. expire_tm = Some e \<and> sint (remaining_seconds e) \<le> 0
            then ''Invalid expire time''
            else ''Unsupported op_type '' @ show_int op_type)"
proof (cases "\<exists>e. expire_tm = Some e \<and> sint (remaining_seconds e) \<le> 0")
  case True
  then obtain e where "expire_tm = Some e" "sint (remaining_seconds e) \<le> 0"
    by blast
  then show ?thesis
    using True by (simp add: set_op_expired)
next
  case False
  then have live: "\<forall>e. expire_tm = Some e \<longrightarrow> 0 < sint (remaining_seconds e)"
    by auto
  show ?thesis
    using False by (simp add: set_op_unsupported [OF assms live])
qed

theorem unsupported_op_type_rejected_witness:
  "\<not> valid_op_type 7 \<and>
   \<not> fst (set_op ''k'' ''v'' None 7 (env_reply reply_status) client_connected) \<and>
   new_calls client_connected
     (snd (set_op ''k'' ''v'' None 7 (env_reply reply_status) client_connected)) = [] \<and>
   m_errmsg (snd (set_op ''k'' ''v'' None 7 (env_reply reply_status) client_connected)) =
     ''Unsupported op_type 7''"
proof -
  have h: "\<not> valid_op_type 7"
    by (simp add: valid_op_type_def set_op_type_defs)
  have seven: "''Unsupported op_type '' @ show_int 7 = ''Unsupported op_type 7''"
    by code_simp
  show ?thesis
    using h seven unsupported_op_type_rejected [OF h, of "''k''" "''v''" None
        "env_reply reply_status" client_connected]
    by simp
qed

subsection \<open>HMGET\<close>

lemma hget_loop_conn:
  "calls (snd (snd (hget_loop r ks n fs c))) = calls c \<and>
   m_context (snd (snd (hget_loop r ks n fs c))) = m_context c"
  by (induction ks arbitrary: n fs) (simp_all add: Let_def)

lemma dom_map_entry: "dom (RBT.lookup (RBT.map_entry k f t)) = dom (RBT.lookup t)"
  by (auto simp add: dom_def split: if_splits)

lemma hget_loop_dom:
  "dom (RBT.lookup (fst (snd (hget_loop r ks n fs c)))) = dom (RBT.lookup fs)"
  by (induction ks arbitrary: n fs)
    (simp_all add: Let_def dom_map_entry del: RBT.lookup_map_entry)

lemma hget_loop_keys:
  "RBT.keys (fst (snd (hget_loop r ks n fs c))) = RBT.keys fs"
proof (rule sorted_distinct_set_unique)
  show "set (RBT.keys (fst (snd (hget_loop r ks n fs c)))) = set (RBT.keys fs)"
    using hget_loop_dom [of r ks n fs c] by (simp add: RBT.lookup_keys)
qed simp_all

lemma hget_loop_other:
  "k \<notin> set ks \<Longrightarrow> RBT.lookup (fst (snd (hget_loop r ks n fs c))) k = RBT.lookup fs k"
  by (induction ks arbitrary: n fs) (simp_all add: Let_def)

lemma hget_loop_assigned:
  assumes "distinct ks" "set ks \<subseteq> dom (RBT.lookup fs)" "j < length ks"
    and "\<forall>i\<le>j. fillable (element r ! (n + i))"
  shows "RBT.lookup (fst (snd (hget_loop r ks n fs c))) (ks ! j)
           = Some (field_value (element r ! (n + j)))"
  using assms
proof (induction ks arbitrary: n fs j)
  case Nil
  then show ?case by simp
next
  case (Cons k ks)
  let ?r = "element r ! n"
  let ?fs1 = "RBT.map_entry k (\<lambda>_. field_value ?r) fs"
  have fill0: "fillable ?r"
    using Cons.prems(4) by (metis add.right_neutral le0)
  have step: "hget_loop r (k # ks) n fs c = hget_loop r ks (Suc n) ?fs1 c"
    using fill0 by (auto simp add: fillable_def field_value_def Let_def reply_type_defs)
  have kdom: "k \<in> dom (RBT.lookup fs)"
    using Cons.prems(2) by simp
  have dom1: "dom (RBT.lookup ?fs1) = dom (RBT.lookup fs)"
    by (rule dom_map_entry)
  show ?case
  proof (cases j)
    case 0
    have "k \<notin> set ks"
      using Cons.prems(1) by simp
    then have "RBT.lookup (fst (snd (hget_loop r ks (Suc n) ?fs1 c))) k = RBT.lookup ?fs1 k"
      by (rule hget_loop_other)
    also have "\<dots> = Some (field_value ?r)"
      using kdom by auto
    finally show ?thesis
      using 0 step by simp
  next
    case (Suc j')
    have "RBT.lookup (fst (snd (hget_loop r ks (Suc n) ?fs1 c))) (ks ! j')
            = Some (field_value (element r ! (Suc n + j')))"
    proof (rule Cons.IH)
      show "distinct ks" using Cons.prems(1) by simp
      show "set ks \<subseteq> dom (RBT.lookup ?fs1)" using Cons.prems(2) dom1 by simp
      show "j' < length ks" using Cons.prems(3) Suc by simp
      show "\<forall>i\<le>j'. fillable (element r ! (Suc n + i))"
      proof (intro allI impI)
        fix i assume "i \<le> j'"
        then have "Suc i \<le> j" using Suc by simp
        then have "fillable (element r ! (n + Suc i))" using Cons.prems(4) by blast
        then show "fillable (element r ! (Suc n + i))" by simp
      qed
    qed
    then show ?thesis
      using Suc step by simp
  qed
qed

lemma hget_loop_ok:
  "fst (hget_loop r ks n fs c) \<longleftrightarrow> (\<forall>i<length ks. fillable (element r ! (n + i)))"
proof (induction ks arbitrary: n fs)
  case Nil
  show ?case by simp
next
  case (Cons k ks)
  have "(\<forall>i<length (k # ks). fillable (element r ! (n + i))) \<longleftrightarrow>
        fillable (element r ! n) \<and> (\<forall>i<length ks. fillable (element r ! (Suc n + i)))"
    by (auto simp add: less_Suc_eq_0_disj)
  then show ?case
    using Cons.IH by (auto simp add: Let_def fillable_def reply_type_defs)
qed


lemma hget_array:
  assumes ans: "transport_answers env c r"
    and arr: "rtype r = REDIS_REPLY_ARRAY"
    and cnt: "elements r = length (RBT.keys fs)"
  obtains c1 where "hget key fs env c = hget_loop r (RBT.keys fs) 0 fs c1"
proof -
  obtain c1 where "run_command env (ExecM ''HMGET'' key (RBT.entries fs) False) c = (Some r, c1)"
    by (rule run_command_answer [OF ans])
  then have "hget key fs env c = hget_loop r (RBT.keys fs) 0 fs c1"
    using arr cnt by (simp add: hget_def execm_def CHECK_REPLY_def)
  then show ?thesis
    by (rule that)
qed

lemma takeWhile_shorter:
  assumes "CHR 0x00 \<in> set s"
  shows "length (takeWhile (\<lambda>ch. ch \<noteq> CHR 0x00) s) < length s"
proof (rule ccontr)
  assume "\<not> length (takeWhile (\<lambda>ch. ch \<noteq> CHR 0x00) s) < length s"
  then have "length (takeWhile (\<lambda>ch. ch \<noteq> CHR 0x00) s) = length s"
    using length_takeWhile_le [of "\<lambda>ch. ch \<noteq> CHR 0x00" s] by simp
  then have "takeWhile (\<lambda>ch. ch \<noteq> CHR 0x00) s = s"
    using takeWhile_eq_take [of "\<lambda>ch. ch \<noteq> CHR 0x00" s] by simp
  then have "\<forall>ch\<in>set s. ch \<noteq> CHR 0x00"
    by (simp add: takeWhile_eq_all_conv)
  then show False
    using assms by blast
qed

lemma get_string_bytes:
  assumes ans: "transport_answers env c r"
    and el: "rtype r = REDIS_REPLY_STRING" "str r = Some s"
  shows "fst (snd (get key val key_exists env c)) = s"
proof -
  obtain c1 where "run_command env (Exec ''GET %b'' [ArgB key]) c = (Some r, c1)"
    by (rule run_command_answer [OF ans])
  then show ?thesis
    using el by (simp add: get_def exec_def bytes_of_Some)
qed

text \<open>
  C9. When the transport answers \<open>hget\<close> with an array of as many elements as there
  are requested fields, and the element for a field is a string whose payload contains
  a NUL byte (no element before it being of a kind the loop rejects), the field receives
  only the bytes before the first NUL, fewer than the payload has; \<open>get\<close>, given the same
  reply, returns the whole payload.
\<close>

theorem hget_truncates_at_nul:
  assumes ans: "transport_answers env c r"
    and arr: "rtype r = REDIS_REPLY_ARRAY"
    and cnt: "elements r = length (RBT.keys fs)"
    and j: "j < length (RBT.keys fs)"
    and before: "\<forall>i<j. fillable (element r ! i)"
    and el: "rtype (element r ! j) = REDIS_REPLY_STRING" "str (element r ! j) = Some s"
    and nul: "CHR 0x00 \<in> set s"
  shows "RBT.lookup (fst (snd (hget key fs env c))) (RBT.keys fs ! j)
           = Some (takeWhile (\<lambda>ch. ch \<noteq> CHR 0x00) s) \<and>
         length (takeWhile (\<lambda>ch. ch \<noteq> CHR 0x00) s) < length s \<and>
         (\<forall>env' c' k v ke. transport_answers env' c' (element r ! j) \<longrightarrow>
            fst (snd (get k v ke env' c')) = s)"
proof -
  obtain c1 where h: "hget key fs env c = hget_loop r (RBT.keys fs) 0 fs c1"
    by (rule hget_array [OF ans arr cnt])
  have fill: "\<forall>i\<le>j. fillable (element r ! (0 + i))"
    using before el(1) by (auto simp add: fillable_def le_less)
  have "RBT.lookup (fst (snd (hget_loop r (RBT.keys fs) 0 fs c1))) (RBT.keys fs ! j)
          = Some (field_value (element r ! (0 + j)))"
    by (rule hget_loop_assigned [OF _ _ j fill]) (simp_all add: RBT.lookup_keys)
  then have a: "RBT.lookup (fst (snd (hget key fs env c))) (RBT.keys fs ! j)
           = Some (takeWhile (\<lambda>ch. ch \<noteq> CHR 0x00) s)"
    using h el by (simp add: field_value_def c_string_def)
  have b: "length (takeWhile (\<lambda>ch. ch \<noteq> CHR 0x00) s) < length s"
    by (rule takeWhile_shorter [OF nul])
  have g: "fst (snd (get k v ke env' c')) = s" if "transport_answers env' c' (element r ! j)"
    for env' c' k v ke
    by (rule get_string_bytes [OF that el])
  show ?thesis
    using a b g by blast
qed

theorem hget_truncates_at_nul_witness:
  "transport_answers
     (env_reply (reply_array [reply_string ''1'', reply_string [CHR ''b'', CHR 0x00, CHR ''z'']]))
     client_connected
     (reply_array [reply_string ''1'', reply_string [CHR ''b'', CHR 0x00, CHR ''z'']]) \<and>
   RBT.keys fields_ab = [''a'', ''b''] \<and>
   RBT.lookup (fst (snd (hget ''h'' fields_ab
       (env_reply (reply_array [reply_string ''1'', reply_string [CHR ''b'', CHR 0x00, CHR ''z'']]))
       client_connected))) ''b'' = Some ''b''"
proof -
  let ?s = "[CHR ''b'', CHR 0x00, CHR ''z'']"
  let ?r = "reply_array [reply_string ''1'', reply_string ?s]"
  have ans: "transport_answers (env_reply ?r) client_connected ?r"
    by (rule transport_answers_connected)
  have keys: "RBT.keys fields_ab = [''a'', ''b'']"
    by code_simp
  have arr: "rtype ?r = REDIS_REPLY_ARRAY"
    by (simp add: reply_array_def)
  have cnt: "elements ?r = length (RBT.keys fields_ab)"
    by (simp add: keys elements_def reply_array_def)
  have j: "(1::nat) < length (RBT.keys fields_ab)"
    by (simp add: keys)
  have before: "\<forall>i<1::nat. fillable (element ?r ! i)"
    by (simp add: fillable_def reply_array_def reply_string_def)
  have el: "rtype (element ?r ! 1) = REDIS_REPLY_STRING" "str (element ?r ! 1) = Some ?s"
    by (simp_all add: reply_array_def reply_string_def)
  have nul: "CHR 0x00 \<in> set ?s"
    by simp
  show ?thesis
    using ans keys hget_truncates_at_nul [OF ans arr cnt j before el nul, of "''h''"]
    by simp
qed

text \<open>
  C5 does not hold of the code for an error element. With one requested field and the array
  reply \<open>[Error "ERR x"]\<close>, \<open>hget\<close> returns false, but the message it records is taken
  from \<open>reply->str\<close>, the string pointer of the array reply itself (null for an array),
  not from the element: the element's text "ERR x" is not the message.
\<close>

theorem hget_error_element_text_dropped:
  "\<not> fst (hget ''h'' fields_a (env_reply (reply_array [reply_error ''ERR x'']))
           client_connected) \<and>
   m_errmsg (snd (snd (hget ''h'' fields_a (env_reply (reply_array [reply_error ''ERR x'']))
           client_connected))) = [] \<and>
   calls (snd (snd (hget ''h'' fields_a (env_reply (reply_array [reply_error ''ERR x'']))
           client_connected))) =
     [EvConnect ''127.0.0.1'' 6379 True,
      EvCommand (ExecM ''HMGET'' ''h'' [(''a'', ''x'')] False) True]"
  by code_simp

subsection \<open>Outputs of a failed call\<close>

lemma get_frame:
  "\<not> fst (get key val key_exists env c) \<Longrightarrow>
     fst (snd (get key val key_exists env c)) = val \<and>
     fst (snd (snd (get key val key_exists env c))) = key_exists"
proof -
  obtain reply c1 where e: "exec env ''GET %b'' [ArgB key] c = (reply, c1)"
    by (cases "exec env ''GET %b'' [ArgB key] c")
  assume "\<not> fst (get key val key_exists env c)"
  then show ?thesis
    using e by (cases reply) (auto simp add: get_def split: if_splits)
qed

lemma ttl_frame: "\<not> fst (ttl key v env c) \<Longrightarrow> fst (snd (ttl key v env c)) = v"
  by (simp add: ttl_def split: prod.splits sum.splits)

lemma scard_frame: "\<not> fst (scard key v env c) \<Longrightarrow> fst (snd (scard key v env c)) = v"
  by (simp add: scard_def split: prod.splits sum.splits)

lemma sismember_frame:
  "\<not> fst (sismember key val v env c) \<Longrightarrow> fst (snd (sismember key val v env c)) = v"
  by (simp add: sismember_def split: prod.splits sum.splits)

lemma sadd_frame: "\<not> fst (sadd key vals v env c) \<Longrightarrow> fst (snd (sadd key vals v env c)) = v"
  by (simp add: sadd_def split: prod.splits sum.splits)

lemma sdiff_frame: "\<not> fst (sdiff keys v env c) \<Longrightarrow> fst (snd (sdiff keys v env c)) = v"
  by (simp add: sdiff_def split: prod.splits sum.splits)

lemma sdiff_store_frame:
  "\<not> fst (sdiff_store dest keys v env c) \<Longrightarrow> fst (snd (sdiff_store dest keys v env c)) = v"
  by (simp add: sdiff_store_def split: prod.splits sum.splits)

lemma sinter_frame: "\<not> fst (sinter keys v env c) \<Longrightarrow> fst (snd (sinter keys v env c)) = v"
  by (simp add: sinter_def split: prod.splits sum.splits)

lemma sinter_store_frame:
  "\<not> fst (sinter_store dest keys v env c) \<Longrightarrow> fst (snd (sinter_store dest keys v env c)) = v"
  by (simp add: sinter_store_def split: prod.splits sum.splits)

lemma hget_partial:
  "\<not> fst (hget ''h'' fields_ab (env_reply (reply_array [reply_nil, reply_error ''ERR'']))
           client_connected) \<and>
   RBT.entries fields_ab = [(''a'', ''x''), (''b'', ''y'')] \<and>
   RBT.entries (fst (snd (hget ''h'' fields_ab
        (env_reply (reply_array [reply_nil, reply_error ''ERR''])) client_connected)))
     = [(''a'', []), (''b'', ''y'')]"
  by code_simp

text \<open>
  C10. When \<open>get\<close>, \<open>ttl\<close>, \<open>scard\<close>, \<open>sismember\<close>, \<open>sadd\<close>, \<open>sdiff\<close>,
  \<open>sdiff_store\<close>, \<open>sinter\<close> or \<open>sinter_store\<close> returns false, every output behind a
  reference or a pointer has the value it had before the call. \<open>hget\<close> is different: on
  the fields \<open>{a: x, b: y}\<close> and the array reply \<open>[Nil, Error]\<close> it returns false after
  having emptied the value of \<open>a\<close>.
\<close>

theorem failed_call_keeps_outputs:
  "(\<not> fst (get key val key_exists env c) \<longrightarrow>
      fst (snd (get key val key_exists env c)) = val \<and>
      fst (snd (snd (get key val key_exists env c))) = key_exists) \<and>
   (\<not> fst (ttl key ttl_var env c) \<longrightarrow> fst (snd (ttl key ttl_var env c)) = ttl_var) \<and>
   (\<not> fst (scard key cnt env c) \<longrightarrow> fst (snd (scard key cnt env c)) = cnt) \<and>
   (\<not> fst (sismember key val is_member env c) \<longrightarrow>
      fst (snd (sismember key val is_member env c)) = is_member) \<and>
   (\<not> fst (sadd key vals cnt_ptr env c) \<longrightarrow>
      fst (snd (sadd key vals cnt_ptr env c)) = cnt_ptr) \<and>
   (\<not> fst (sdiff keys result env c) \<longrightarrow> fst (snd (sdiff keys result env c)) = result) \<and>
   (\<not> fst (sdiff_store key keys cnt_ptr env c) \<longrightarrow>
      fst (snd (sdiff_store key keys cnt_ptr env c)) = cnt_ptr) \<and>
   (\<not> fst (sinter keys result env c) \<longrightarrow> fst (snd (sinter keys result env c)) = result) \<and>
   (\<not> fst (sinter_store key keys cnt_ptr env c) \<longrightarrow>
      fst (snd (sinter_store key keys cnt_ptr env c)) = cnt_ptr) \<and>
   \<not> fst (hget ''h'' fields_ab (env_reply (reply_array [reply_nil, reply_error ''ERR'']))
           client_connected) \<and>
   RBT.entries fields_ab = [(''a'', ''x''), (''b'', ''y'')] \<and>
   RBT.entries (fst (snd (hget ''h'' fields_ab
        (env_reply (reply_array [reply_nil, reply_error ''ERR''])) client_connected)))
     = [(''a'', []), (''b'', ''y'')]"
proof -
  note frames = get_frame ttl_frame scard_frame sismember_frame sadd_frame sdiff_frame
    sdiff_store_frame sinter_frame sinter_store_frame
  show ?thesis
    using hget_partial by (simp add: frames)
qed

theorem failed_call_keeps_outputs_witness:
  "\<not> fst (get ''k'' ''old'' (Some True) env_down client_disconnected) \<and>
   fst (snd (get ''k'' ''old'' (Some True) env_down client_disconnected)) = ''old'' \<and>
   fst (snd (snd (get ''k'' ''old'' (Some True) env_down client_disconnected))) = Some True \<and>
   \<not> fst (ttl ''k'' 7 env_down client_disconnected) \<and>
   fst (snd (ttl ''k'' 7 env_down client_disconnected)) = 7 \<and>
   \<not> fst (scard ''k'' 7 env_down client_disconnected) \<and>
   fst (snd (scard ''k'' 7 env_down client_disconnected)) = 7 \<and>
   \<not> fst (sismember ''k'' ''old'' True env_down client_disconnected) \<and>
   fst (snd (sismember ''k'' ''old'' True env_down client_disconnected)) = True \<and>
   \<not> fst (sadd ''k'' [''v''] (Some 7) env_down client_disconnected) \<and>
   fst (snd (sadd ''k'' [''v''] (Some 7) env_down client_disconnected)) = Some 7 \<and>
   \<not> fst (sdiff [''s'', ''t''] [''r''] env_down client_disconnected) \<and>
   fst (snd (sdiff [''s'', ''t''] [''r''] env_down client_disconnected)) = [''r''] \<and>
   \<not> fst (sdiff_store ''k'' [''s'', ''t''] (Some 7) env_down client_disconnected) \<and>
   fst (snd (sdiff_store ''k'' [''s'', ''t''] (Some 7) env_down client_disconnected)) = Some 7 \<and>
   \<not> fst (sinter [''s'', ''t''] [''r''] env_down client_disconnected) \<and>
   fst (snd (sinter [''s'', ''t''] [''r''] env_down client_disconnected)) = [''r''] \<and>
   \<not> fst (sinter_store ''k'' [''s'', ''t''] (Some 7) env_down client_disconnected) \<and>
   fst (snd (sinter_store ''k'' [''s'', ''t''] (Some 7) env_down client_disconnected)) = Some 7"
proof -
  have f1: "\<not> fst (get ''k'' ''old'' (Some True) env_down client_disconnected)"
    by code_simp
  have f2: "\<not> fst (ttl ''k'' 7 env_down client_disconnected)"
    by code_simp
  have f3: "\<not> fst (scard ''k'' 7 env_down client_disconnected)"
    by code_simp
  have f4: "\<not> fst (sismember ''k'' ''old'' True env_down client_disconnected)"
    by code_simp
  have f5: "\<not> fst (sadd ''k'' [''v''] (Some 7) env_down client_disconnected)"
    by code_simp
  have f6: "\<not> fst (sdiff [''s'', ''t''] [''r''] env_down client_disconnected)"
    by code_simp
  have f7: "\<not> fst (sdiff_store ''k'' [''s'', ''t''] (Some 7) env_down client_disconnected)"
    by code_simp
  have f8: "\<not> fst (sinter [''s'', ''t''] [''r''] env_down client_disconnected)"
    by code_simp
  have f9: "\<not> fst (sinter_store ''k'' [''s'', ''t''] (Some 7) env_down client_disconnected)"
    by code_simp
  note w = failed_call_keeps_outputs
    [of "''k''" "''old''" "Some True" env_down client_disconnected 7 7 True "[''v'']" "Some 7"
        "[''s'', ''t'']" "[''r'']"]
  show ?thesis
    using f1 f2 f3 f4 f5 f6 f7 f8 f9 w by blast
qed

subsection \<open>The connection invariant\<close>

lemma handle_live_snoc: "handle_live (es @ [e]) = live_after (handle_live es) e"
  by (simp add: handle_live_def)

lemma handle_live_iff:
  "handle_live es \<longleftrightarrow>
     (\<exists>pre ip port post. es = pre @ EvConnect ip port True # post \<and> list_all ok_command post)"
proof (induction es rule: rev_induct)
  case Nil
  show ?case by (simp add: handle_live_def)
next
  case (snoc e es)
  show ?case
  proof (cases e)
    case (EvConnect ip port ok)
    show ?thesis
    proof (cases ok)
      case True
      have "es @ [e] = es @ EvConnect ip port True # [] \<and> list_all ok_command []"
        using EvConnect True by simp
      then have "\<exists>pre ip port post. es @ [e] = pre @ EvConnect ip port True # post \<and> list_all ok_command post"
        by blast
      then show ?thesis
        using EvConnect True by (simp add: handle_live_snoc)
    next
      case False
      have "\<not> (es @ [e] = pre @ EvConnect ip' port' True # post \<and> list_all ok_command post)"
        for pre ip' port' post
      proof (cases post rule: rev_cases)
        case Nil
        then show ?thesis using EvConnect False by auto
      next
        case (snoc post' x)
        then show ?thesis using EvConnect False by (auto simp add: ok_command_def)
      qed
      then show ?thesis
        using EvConnect False by (simp add: handle_live_snoc)
    qed
  next
    case (EvCommand cmd ok)
    have "(\<exists>pre ip port post. es @ [e] = pre @ EvConnect ip port True # post \<and> list_all ok_command post)
      \<longleftrightarrow> ok \<and> (\<exists>pre ip port post. es = pre @ EvConnect ip port True # post \<and> list_all ok_command post)"
      (is "?L \<longleftrightarrow> ?R")
    proof
      assume ?L
      then obtain pre ip port post where
        eq: "es @ [e] = pre @ EvConnect ip port True # post" and all: "list_all ok_command post"
        by blast
      show ?R
      proof (cases post rule: rev_cases)
        case Nil
        then show ?thesis using eq EvCommand by auto
      next
        case (snoc post' x)
        then have "es = pre @ EvConnect ip port True # post'" "x = e"
          using eq by auto
        then show ?thesis
          using all snoc EvCommand by (auto simp add: ok_command_def)
      qed
    next
      assume ?R
      then obtain pre ip port post where
        "es = pre @ EvConnect ip port True # post" "list_all ok_command post" ok
        by blast
      then have "es @ [e] = pre @ EvConnect ip port True # (post @ [e]) \<and>
                 list_all ok_command (post @ [e])"
        using EvCommand by (simp add: ok_command_def)
      then show ?L by blast
    qed
    then show ?thesis
      using EvCommand snoc.IH by (auto simp add: handle_live_snoc)
  next
    case EvFree
    have "\<not> (es @ [e] = pre @ EvConnect ip' port' True # post \<and> list_all ok_command post)"
      for pre ip' port' post
    proof (cases post rule: rev_cases)
      case Nil
      then show ?thesis using EvFree by auto
    next
      case (snoc post' x)
      then show ?thesis using EvFree by (auto simp add: ok_command_def)
    qed
    then show ?thesis
      using EvFree by (simp add: handle_live_snoc)
  qed
qed


lemma conn_inv_same: "same_conn c c' \<Longrightarrow> conn_inv c' = conn_inv c"
  by (simp add: same_conn_def conn_inv_def)

lemma same_conn_refl [simp]: "same_conn c c"
  by (simp add: same_conn_def)

lemma same_conn_set_errmsg [simp]: "same_conn c (set_errmsg msg c)"
  by (simp add: same_conn_def)

lemma same_conn_new_calls: "same_conn c1 c' \<Longrightarrow> new_calls c c' = new_calls c c1"
  by (simp add: same_conn_def new_calls_def)

text \<open>What one connect attempt does to the handle and the log.\<close>

lemma alloc_context_effect:
  "\<exists>tl. calls (snd (alloc_context env c)) =
          calls c @ EvConnect (c_string (Some (m_ip c))) (m_port c) (connect_ok env) # tl \<and>
        (tl = [] \<or> \<not> connect_ok env \<and> tl = [EvFree]) \<and>
        (m_context (snd (alloc_context env c)) \<noteq> None) = connect_ok env \<and>
        (\<forall>x. m_context (snd (alloc_context env c)) = Some x \<longrightarrow> err x = 0)"
  by (auto simp add: alloc_context_def connect_ok_def free_context_def set_errmsg_def Let_def
      split: connect_result.splits)

lemma alloc_context_fields:
  "m_ip (snd (alloc_context env c)) = m_ip c \<and>
   m_port (snd (alloc_context env c)) = m_port c \<and>
   m_ip_port (snd (alloc_context env c)) = m_ip_port c"
  by (auto simp add: alloc_context_def free_context_def set_errmsg_def Let_def
      split: connect_result.splits)

lemma conn_inv_alloc_context: "conn_inv (snd (alloc_context env c))"
proof -
  obtain tl where
    a: "calls (snd (alloc_context env c)) =
          calls c @ EvConnect (c_string (Some (m_ip c))) (m_port c) (connect_ok env) # tl"
    and b: "tl = [] \<or> \<not> connect_ok env \<and> tl = [EvFree]"
    and d: "(m_context (snd (alloc_context env c)) \<noteq> None) = connect_ok env"
    and e: "\<forall>x. m_context (snd (alloc_context env c)) = Some x \<longrightarrow> err x = 0"
    using alloc_context_effect [of env c] by blast
  have "handle_live (calls (snd (alloc_context env c))) = connect_ok env"
    using a b by (auto simp add: handle_live_def)
  then show ?thesis
    using d e by (auto simp add: conn_inv_def split: option.splits)
qed

text \<open>Sending a command on a held handle.\<close>

lemma send_command_effect:
  assumes "m_context c \<noteq> None"
  shows "(\<exists>r. on_command env = ReplyOk r \<and>
              send_command env cmd c = (Some r, c\<lparr>calls := calls c @ [EvCommand cmd True]\<rparr>)) \<or>
         (fst (send_command env cmd c) = None \<and>
          m_context (snd (send_command env cmd c)) = None \<and>
          calls (snd (send_command env cmd c)) = calls c @ [EvCommand cmd False, EvFree])"
  using assms
  by (cases "on_command env")
    (auto simp add: send_command_def free_context_def set_errmsg_def Let_def)

lemma conn_inv_send_command:
  assumes "conn_inv c" "m_context c \<noteq> None"
  shows "conn_inv (snd (send_command env cmd c))"
  using send_command_effect [OF assms(2), of env cmd] assms
  by (auto simp add: conn_inv_def handle_live_def)

lemma conn_inv_run_command:
  assumes "conn_inv c"
  shows "conn_inv (snd (run_command env cmd c))"
proof (cases "has_context c")
  case True
  then show ?thesis
    using conn_inv_send_command [OF assms, of env cmd]
    by (simp add: run_command_def has_context_def)
next
  case noctx: False
  obtain b c1 where a: "alloc_context env c = (b, c1)"
    by (cases "alloc_context env c")
  have inv1: "conn_inv c1"
    using conn_inv_alloc_context [of env c] a by simp
  have b: "b = connect_ok env"
    using alloc_context_fst [of env c] a by simp
  have ctx: "(m_context c1 \<noteq> None) = connect_ok env"
    using alloc_context_effect [of env c] a by auto
  show ?thesis
  proof (cases b)
    case True
    then have "m_context c1 \<noteq> None"
      using b ctx by simp
    then show ?thesis
      using noctx a True conn_inv_send_command [OF inv1, of env cmd]
      by (simp add: run_command_def)
  next
    case False
    then show ?thesis
      using noctx a inv1 by (simp add: run_command_def)
  qed
qed

lemma run_command_calls:
  "calls (snd (run_command env cmd c)) = calls c @ new_calls c (snd (run_command env cmd c))"
proof -
  have "\<exists>es. calls (snd (run_command env cmd c)) = calls c @ es"
    by (auto simp add: run_command_def alloc_context_def send_command_def
        has_context_def free_context_def set_errmsg_def Let_def
      split: connect_result.splits command_result.splits option.splits)
  then show ?thesis
    by (auto simp add: new_calls_def)
qed

lemma run_command_failure:
  assumes "list_ex failed_call (new_calls c (snd (run_command env cmd c)))"
  shows "fst (run_command env cmd c) = None \<and> m_context (snd (run_command env cmd c)) = None"
  using assms
  by (auto simp add: new_calls_def run_command_def alloc_context_def send_command_def
        has_context_def free_context_def set_errmsg_def Let_def
      split: connect_result.splits command_result.splits option.splits if_splits)

lemma run_command_reconnects:
  assumes "m_context c = None"
  shows "\<exists>tl. new_calls c (snd (run_command env cmd c)) =
           EvConnect (c_string (Some (m_ip c))) (m_port c) (connect_ok env) # tl"
  using assms
  by (auto simp add: new_calls_def run_command_def alloc_context_def send_command_def
        has_context_def free_context_def set_errmsg_def connect_ok_def Let_def
      split: connect_result.splits command_result.splits option.splits if_splits)


lemma check_reply_through:
  assumes "run_command env cmd c = (reply, c1)"
  shows "through env cmd c
           (case CHECK_REPLY reply t c1 of Inl c2 \<Rightarrow> (False, c2) | Inr r \<Rightarrow> (b r, c1))"
  using assms
  by (auto simp add: through_def CHECK_REPLY_def split: option.splits)

lemma select_db_through:
  "through env (Exec ''SELECT %d'' [ArgD dbidx]) c (select_db dbidx env c)"
  by (cases "run_command env (Exec ''SELECT %d'' [ArgD dbidx]) c")
    (simp add: select_db_def exec_def check_reply_through)

lemma expire_through:
  "through env (Exec ''EXPIRE %b %u'' [ArgB key, ArgU seconds]) c (expire key seconds env c)"
  by (cases "run_command env (Exec ''EXPIRE %b %u'' [ArgB key, ArgU seconds]) c")
    (auto simp add: expire_def exec_def through_def CHECK_REPLY_def expire_result_def
       split: option.splits)

lemma expire_at_through:
  "through env (Exec ''EXPIREAT %b %lld'' [ArgB key, ArgLL expired_tm]) c
     (expire_at key expired_tm env c)"
  by (cases "run_command env (Exec ''EXPIREAT %b %lld'' [ArgB key, ArgLL expired_tm]) c")
    (auto simp add: expire_at_def exec_def through_def CHECK_REPLY_def expire_result_def
       split: option.splits)

lemma set_classify_through:
  assumes "run_command env cmd c = (reply, c1)"
  shows "through env cmd c (set_classify op_type reply c1)"
  using assms by (auto simp add: through_def set_classify_def split: option.splits)

lemma set_op_shape:
  "if valid_op_type op_type \<and>
      (case expire_tm of None \<Rightarrow> True | Some e \<Rightarrow> 0 < sint (remaining_seconds e))
   then \<exists>cmd. through env cmd c (set_op key val expire_tm op_type env c)
   else untouched c (set_op key val expire_tm op_type env c)"
proof (cases "\<exists>e. expire_tm = Some e \<and> sint (remaining_seconds e) \<le> 0")
  case True
  then show ?thesis
    by (auto simp add: untouched_def set_op_expired)
next
  case False
  then have live: "\<forall>e. expire_tm = Some e \<longrightarrow> 0 < sint (remaining_seconds e)"
    by auto
  then have live': "case expire_tm of None \<Rightarrow> True | Some e \<Rightarrow> 0 < sint (remaining_seconds e)"
    by (simp split: option.splits)
  show ?thesis
  proof (cases "valid_op_type op_type")
    case True
    obtain cmd where send:
      "set_send key val (map_option remaining_seconds expire_tm) op_type env c
         = run_command env cmd c"
      using set_send_valid [OF True] by blast
    have "through env cmd c (set_op key val expire_tm op_type env c)"
      using send
      by (cases "run_command env cmd c")
        (simp add: set_op_unfold [OF live] set_classify_through)
    then show ?thesis
      using True live' by auto
  next
    case False
    then show ?thesis
      by (simp add: untouched_def set_op_unsupported [OF False live])
  qed
qed

lemma get_through:
  "through env (Exec ''GET %b'' [ArgB key]) c (run (Get key val key_exists) env c)"
proof -
  obtain reply c1 where "run_command env (Exec ''GET %b'' [ArgB key]) c = (reply, c1)"
    by (cases "run_command env (Exec ''GET %b'' [ArgB key]) c")
  then show ?thesis
    by (cases reply) (auto simp add: get_def exec_def through_def)
qed

lemma ttl_through:
  "through env (Exec ''TTL %b'' [ArgB key]) c (run (Ttl key ttl_var) env c)"
  by (cases "run_command env (Exec ''TTL %b'' [ArgB key]) c")
    (auto simp add: ttl_def exec_def through_def CHECK_REPLY_def split: option.splits)

lemma scard_through:
  "through env (Exec ''SCARD %b'' [ArgB key]) c (run (SCard key cnt) env c)"
  by (cases "run_command env (Exec ''SCARD %b'' [ArgB key]) c")
    (auto simp add: scard_def exec_def through_def CHECK_REPLY_def split: option.splits)

lemma sismember_through:
  "through env (Exec ''SISMEMBER %b %b'' [ArgB key, ArgB val]) c
     (run (SIsMember key val is_member) env c)"
  by (cases "run_command env (Exec ''SISMEMBER %b %b'' [ArgB key, ArgB val]) c")
    (auto simp add: sismember_def exec_def through_def CHECK_REPLY_def split: option.splits)

lemma sadd_through:
  "through env (ExecV ''SADD'' (Some key) vals) c (run (SAdd key vals cnt) env c)"
  by (cases "run_command env (ExecV ''SADD'' (Some key) vals) c")
    (auto simp add: sadd_def execv_def through_def CHECK_REPLY_def split: option.splits)

lemma sdiff_through:
  "through env (ExecV ''SDIFF'' None keys) c (run (SDiff keys result) env c)"
  by (cases "run_command env (ExecV ''SDIFF'' None keys) c")
    (auto simp add: sdiff_def execv_def through_def CHECK_REPLY_def split: option.splits)

lemma sdiff_store_through:
  "through env (ExecV ''SDIFFSTORE'' (Some dest) keys) c (run (SDiffStore dest keys cnt) env c)"
  by (cases "run_command env (ExecV ''SDIFFSTORE'' (Some dest) keys) c")
    (auto simp add: sdiff_store_def execv_def through_def CHECK_REPLY_def split: option.splits)

lemma sinter_through:
  "through env (ExecV ''SINTER'' None keys) c (run (SInter keys result) env c)"
  by (cases "run_command env (ExecV ''SINTER'' None keys) c")
    (auto simp add: sinter_def execv_def through_def CHECK_REPLY_def split: option.splits)

lemma sinter_store_through:
  "through env (ExecV ''SINTERSTORE'' (Some dest) keys) c (run (SInterStore dest keys cnt) env c)"
  by (cases "run_command env (ExecV ''SINTERSTORE'' (Some dest) keys) c")
    (auto simp add: sinter_store_def execv_def through_def CHECK_REPLY_def split: option.splits)

lemma hget_loop_through:
  assumes "run_command env cmd c = (Some r, c1)"
  shows "through env cmd c (case hget_loop r ks n fs c1 of (ok, _, c2) \<Rightarrow> (ok, c2))"
proof -
  have "same_conn c1 (snd (snd (hget_loop r ks n fs c1)))"
    using hget_loop_conn [of r ks n fs c1] by (simp add: same_conn_def)
  then show ?thesis
    using assms by (auto simp add: through_def split: prod.splits)
qed

lemma hget_through:
  "through env (ExecM ''HMGET'' key (RBT.entries fs) False) c (run (HGet key fs) env c)"
proof -
  let ?cmd = "ExecM ''HMGET'' key (RBT.entries fs) False"
  obtain reply c1 where run: "run_command env ?cmd c = (reply, c1)"
    by (cases "run_command env ?cmd c")
  show ?thesis
  proof (cases "CHECK_REPLY reply REDIS_REPLY_ARRAY c1")
    case (Inl c2)
    then show ?thesis
      using run
      by (auto simp add: hget_def execm_def through_def CHECK_REPLY_def
          split: option.splits if_splits)
  next
    case (Inr r)
    then have reply: "reply = Some r"
      by (auto simp add: CHECK_REPLY_def split: option.splits if_splits)
    show ?thesis
    proof (cases "elements r \<noteq> length (RBT.keys fs)")
      case True
      then show ?thesis
        using run Inr by (simp add: hget_def execm_def through_def)
    next
      case False
      then show ?thesis
        using run Inr reply hget_loop_through [of env ?cmd c r c1 "RBT.keys fs" 0 fs]
        by (simp add: hget_def execm_def)
    qed
  qed
qed

lemma hset_through:
  "through env (ExecM ''HMSET'' key (RBT.entries fs) True) c (hset key fs env c)"
  by (cases "run_command env (ExecM ''HMSET'' key (RBT.entries fs) True) c")
    (simp add: hset_def execm_def check_reply_through)

lemma run_shape:
  "if reaches_transport op then \<exists>cmd. through env cmd c (run op env c)
   else untouched c (run op env c)"
proof (cases op)
  case (SelectDb dbidx)
  show ?thesis
    unfolding SelectDb using select_db_through [of env dbidx c] by auto
next
  case (Expire key seconds)
  show ?thesis
    unfolding Expire using expire_through [of env key seconds c] by auto
next
  case (ExpireAt key expired_tm)
  show ?thesis
    unfolding ExpireAt using expire_at_through [of env key expired_tm c] by auto
next
  case (Ttl key ttl_var)
  show ?thesis
    unfolding Ttl using ttl_through by (simp, blast)
next
  case (SetOp key val expire_tm op_type)
  show ?thesis
    unfolding SetOp using set_op_shape [of op_type expire_tm env c key val] by simp
next
  case (Get key val key_exists)
  show ?thesis
    unfolding Get using get_through by (simp, blast)
next
  case (SAdd key vals cnt)
  show ?thesis
    unfolding SAdd using sadd_through by (simp, blast)
next
  case (SCard key cnt)
  show ?thesis
    unfolding SCard using scard_through by (simp, blast)
next
  case (SDiff keys result)
  show ?thesis
    unfolding SDiff using sdiff_through by (simp, blast)
next
  case (SDiffStore dest keys cnt)
  show ?thesis
    unfolding SDiffStore using sdiff_store_through by (simp, blast)
next
  case (SInter keys result)
  show ?thesis
    unfolding SInter using sinter_through by (simp, blast)
next
  case (SInterStore dest keys cnt)
  show ?thesis
    unfolding SInterStore using sinter_store_through by (simp, blast)
next
  case (SIsMember key val is_member)
  show ?thesis
    unfolding SIsMember using sismember_through by (simp, blast)
next
  case (HGet key fs)
  show ?thesis
    unfolding HGet using hget_through by (simp, blast)
next
  case (HSet key fs)
  show ?thesis
    unfolding HSet using hset_through [of env key fs c] by auto
qed

lemma run_shape_cases:
  "untouched c (run op env c) \<or> (\<exists>cmd. through env cmd c (run op env c))"
  using run_shape [of op env c] by (auto split: if_splits)

lemma conn_inv_run:
  assumes "conn_inv c"
  shows "conn_inv (snd (run op env c))"
  using run_shape_cases [of c op env] conn_inv_run_command [OF assms] assms
  by (auto simp add: untouched_def through_def conn_inv_same)

lemma conn_inv_run_all:
  "conn_inv c \<Longrightarrow> conn_inv (run_all steps c)"
proof (induction steps arbitrary: c)
  case Nil
  then show ?case by simp
next
  case (Cons step steps)
  obtain op env where "step = (op, env)"
    by (cases step)
  then show ?case
    using Cons.IH [OF conn_inv_run [OF Cons.prems, of op env]] by simp
qed

text \<open>The log and the handle that one command leaves behind.\<close>

lemma run_command_trace:
  "new_calls c (snd (run_command env cmd c)) =
     (if has_context c then []
      else EvConnect (c_string (Some (m_ip c))) (m_port c) (connect_ok env)
             # (if connect_errored env then [EvFree] else [])) @
     (if has_context c \<or> connect_ok env then
        (case on_command env of
           ReplyOk r \<Rightarrow> [EvCommand cmd True]
         | ReplyNull e s \<Rightarrow> [EvCommand cmd False, EvFree])
      else [])"
  by (auto simp add: new_calls_def run_command_def alloc_context_def send_command_def
        has_context_def free_context_def set_errmsg_def connect_ok_def connect_errored_def
        Let_def
      split: connect_result.splits command_result.splits option.splits)

lemma run_command_handle:
  "(m_context (snd (run_command env cmd c)) \<noteq> None) = (\<exists>r. transport_answers env c r)"
  by (auto simp add: run_command_def alloc_context_def send_command_def transport_answers_def
        has_context_def free_context_def set_errmsg_def connect_ok_def Let_def
      split: connect_result.splits command_result.splits option.splits)

lemma failed_trace_released:
  assumes "list_ex failed_call (new_calls c (snd (run_command env cmd c)))"
  shows "last (new_calls c (snd (run_command env cmd c))) = EvFree \<or>
         on_connect env = ConnectNull \<and> m_context c = None \<and>
         new_calls c (snd (run_command env cmd c)) =
           [EvConnect (c_string (Some (m_ip c))) (m_port c) False]"
  using assms unfolding run_command_trace
  by (auto simp add: has_context_def connect_ok_def connect_errored_def
      split: connect_result.splits command_result.splits if_splits)

text \<open>What the constructor accepts, and what it builds.\<close>

lemma RedisClient_new_Inr:
  "RedisClient_new env ip_port = Inr c \<longleftrightarrow>
     (\<exists>pos. find_last_of ip_port (CHR '':'') = Some pos \<and>
        (let port = (if pos + 1 < length ip_port
                     then atoi (c_string (Some (drop (pos + 1) ip_port))) else 6379)
         in 0 < port \<and> port \<le> 65535 \<and>
            c = snd (alloc_context env
                  \<lparr>m_ip_port = ip_port, m_ip = take pos ip_port, m_port = port,
                   m_context = None, m_errmsg = [], calls = []\<rparr>)))"
proof (cases "find_last_of ip_port (CHR '':'')")
  case None
  then show ?thesis
    by (simp add: RedisClient_new_def)
next
  case (Some pos)
  show ?thesis
  proof (cases "pos + 1 < length ip_port")
    case True
    then show ?thesis
      using Some by (auto simp add: RedisClient_new_def Let_def)
  next
    case False
    then show ?thesis
      using Some by (auto simp add: RedisClient_new_def Let_def)
  qed
qed

lemma conn_inv_RedisClient_new:
  assumes "RedisClient_new env ip_port = Inr c"
  shows "conn_inv c"
  using assms conn_inv_alloc_context
  by (auto simp add: RedisClient_new_Inr Let_def)

text \<open>
  C1 as stated does not hold: the constructor ends with a call of
  \<open>alloc_context\<close>. Constructing a client for "127.0.0.1:6379" with a reachable server
  returns an object that already holds a handle, after one call of the transport's
  connect.
\<close>

theorem constructor_connects_counterexample:
  "RedisClient_new (env_reply reply_status) ''127.0.0.1:6379'' =
     Inr \<lparr>m_ip_port = ''127.0.0.1:6379'', m_ip = ''127.0.0.1'', m_port = 6379,
          m_context = Some \<lparr>err = 0, errstr = []\<rparr>, m_errmsg = [],
          calls = [EvConnect ''127.0.0.1'' 6379 True]\<rparr>"
  by code_simp

text \<open>
  C1, amended. When the constructor accepts an address, the object holds the address,
  the host (the text before the last colon) and the port (\<open>atoi\<close> of the text after
  it, or 6379 when nothing follows the colon; between 1 and 65535). The constructor has
  then made exactly one connection attempt, to \<open>m_ip.c_str()\<close> and that port, and no
  other transport call except the release of a context that reported an error. The
  handle is held afterwards exactly when the attempt succeeded. Whether the address is
  accepted does not depend on the transport: the same address is accepted, with the same
  host and port, whatever the connection attempt returns.
\<close>

theorem constructor_connects_once:
  assumes "RedisClient_new env ip_port = Inr c"
  shows "(\<exists>pos. find_last_of ip_port (CHR '':'') = Some pos \<and>
            m_ip c = take pos ip_port \<and>
            m_port c = (if pos + 1 < length ip_port
                        then atoi (c_string (Some (drop (pos + 1) ip_port))) else 6379)) \<and>
         0 < m_port c \<and> m_port c \<le> 65535 \<and>
         m_ip_port c = ip_port \<and>
         calls c = EvConnect (c_string (Some (m_ip c))) (m_port c) (connect_ok env)
                     # (if connect_errored env then [EvFree] else []) \<and>
         (m_context c \<noteq> None) = connect_ok env \<and>
         (\<forall>env'. \<exists>c'. RedisClient_new env' ip_port = Inr c' \<and>
                       m_ip c' = m_ip c \<and> m_port c' = m_port c) \<and>
         conn_inv c"
proof -
  obtain pos where pos: "find_last_of ip_port (CHR '':'') = Some pos"
    and parsed: "let port = (if pos + 1 < length ip_port
                     then atoi (c_string (Some (drop (pos + 1) ip_port))) else 6379)
         in 0 < port \<and> port \<le> 65535 \<and>
            c = snd (alloc_context env
                  \<lparr>m_ip_port = ip_port, m_ip = take pos ip_port, m_port = port,
                   m_context = None, m_errmsg = [], calls = []\<rparr>)"
    using assms unfolding RedisClient_new_Inr by blast
  define port where "port = (if pos + 1 < length ip_port
                     then atoi (c_string (Some (drop (pos + 1) ip_port))) else 6379)"
  define c0 where "c0 = \<lparr>m_ip_port = ip_port, m_ip = take pos ip_port, m_port = port,
                   m_context = None, m_errmsg = [], calls = []\<rparr>"
  have range: "0 < port" "port \<le> 65535" and c: "c = snd (alloc_context env c0)"
    using parsed by (simp_all add: port_def c0_def Let_def)
  have fields: "m_ip c = take pos ip_port" "m_port c = port" "m_ip_port c = ip_port"
    using alloc_context_fields [of env c0] c by (simp_all add: c0_def)
  have nc: "new_calls c0 c = calls c"
    by (simp add: new_calls_def c0_def)
  have tl: "(if connect_errored env then [EvFree] else []) =
            (case on_connect env of
               ConnectCtx x \<Rightarrow> if err x = 0 then [] else [EvFree]
             | ConnectNull \<Rightarrow> [])"
    by (simp add: connect_errored_def split: connect_result.splits)
  have trace: "calls c = EvConnect (c_string (Some (m_ip c))) (m_port c) (connect_ok env)
                     # (if connect_errored env then [EvFree] else [])"
    unfolding tl using c fields
    by (auto simp add: c0_def alloc_context_def free_context_def set_errmsg_def
          connect_ok_def Let_def
        split: connect_result.splits)
  have ctx: "(m_context c \<noteq> None) = connect_ok env"
    using alloc_context_effect [of env c0] c by auto
  have other: "\<exists>c'. RedisClient_new env' ip_port = Inr c' \<and>
                       m_ip c' = m_ip c \<and> m_port c' = m_port c" for env'
  proof -
    let ?c' = "snd (alloc_context env' c0)"
    have "RedisClient_new env' ip_port = Inr ?c'"
      unfolding RedisClient_new_Inr using pos range
      by (auto simp add: Let_def port_def c0_def)
    moreover have "m_ip ?c' = m_ip c" "m_port ?c' = m_port c"
      using alloc_context_fields [of env' c0] fields by (simp_all add: c0_def)
    ultimately show ?thesis
      by blast
  qed
  have inv: "conn_inv c"
    by (rule conn_inv_RedisClient_new [OF assms])
  have first: "\<exists>pos. find_last_of ip_port (CHR '':'') = Some pos \<and>
            m_ip c = take pos ip_port \<and>
            m_port c = (if pos + 1 < length ip_port
                        then atoi (c_string (Some (drop (pos + 1) ip_port))) else 6379)"
    using pos fields by (auto simp add: port_def)
  show ?thesis
    using first range fields trace ctx other inv by simp
qed

theorem constructor_connects_once_witness:
  "RedisClient_new env_down ''10.0.0.1:6380'' = Inr client_refused \<and>
   m_ip client_refused = ''10.0.0.1'' \<and>
   m_port client_refused = 6380 \<and>
   calls client_refused = [EvConnect ''10.0.0.1'' 6380 False, EvFree] \<and>
   m_context client_refused = None \<and>
   (\<exists>c'. RedisClient_new (env_reply reply_status) ''10.0.0.1:6380'' = Inr c' \<and>
         m_ip c' = ''10.0.0.1'' \<and> m_port c' = 6380) \<and>
   conn_inv client_refused"
proof -
  have h: "RedisClient_new env_down ''10.0.0.1:6380'' = Inr client_refused"
    by code_simp
  have e: "connect_errored env_down" "\<not> connect_ok env_down"
    by (simp_all add: connect_errored_def connect_ok_def env_down_def)
  have f: "m_ip client_refused = ''10.0.0.1''" "m_port client_refused = 6380"
    by (simp_all add: client_refused_def)
  have z: "c_string (Some ''10.0.0.1'') = ''10.0.0.1''"
    by (simp add: c_string_def)
  note w = constructor_connects_once [OF h]
  have other: "\<exists>c'. RedisClient_new (env_reply reply_status) ''10.0.0.1:6380'' = Inr c' \<and>
         m_ip c' = m_ip client_refused \<and> m_port c' = m_port client_refused"
    using w by blast
  have rest: "calls client_refused =
      EvConnect (c_string (Some (m_ip client_refused))) (m_port client_refused)
        (connect_ok env_down) # (if connect_errored env_down then [EvFree] else []) \<and>
      (m_context client_refused \<noteq> None) = connect_ok env_down \<and> conn_inv client_refused"
    using w by blast
  show ?thesis
    using h e f z other rest by simp
qed

text \<open>
  A host with an embedded NUL byte: the object keeps the whole text, the connect goes to
  the bytes before the NUL.
\<close>

lemma constructor_host_c_str:
  "RedisClient_new (env_reply reply_status) [CHR ''a'', CHR 0x00, CHR ''b'', CHR '':'', CHR ''8'', CHR ''0''] =
     Inr \<lparr>m_ip_port = [CHR ''a'', CHR 0x00, CHR ''b'', CHR '':'', CHR ''8'', CHR ''0''],
          m_ip = [CHR ''a'', CHR 0x00, CHR ''b''], m_port = 80,
          m_context = Some \<lparr>err = 0, errstr = []\<rparr>, m_errmsg = [],
          calls = [EvConnect ''a'' 80 True]\<rparr>"
  by code_simp

text \<open>
  C2. For every operation: the log only grows. If a transport call of the operation
  failed (a connect that did not succeed, or a command that returned a null reply), the
  operation returns false, the handle is null afterwards, and the release of the handle
  is the last entry of the log, except when the connect returned no context at all, so
  that there was nothing to release. Every operation other than a \<open>set\<close> refused at
  validation reaches the transport: its log entries are a connect to the client's host
  and port when no handle was held (followed by the release of an errored context),
  then, when a handle is held or was obtained, its command (followed by the release
  when the reply is null); afterwards the handle is held exactly when the transport
  answered. So an operation that starts without a handle, as after a failure, begins
  with a fresh connect. A \<open>set\<close> refused at validation returns false and leaves handle
  and log alone. The state invariant is preserved: a non-null handle means that the last
  connect in the log succeeded and that every later entry is a command that returned a
  reply; it holds after any sequence of operations on a constructed client.
\<close>

theorem transport_failure_releases_handle:
  assumes res: "run op env c = (ok, c')"
  shows "calls c' = calls c @ new_calls c c' \<and>
         (list_ex failed_call (new_calls c c') \<longrightarrow>
            \<not> ok \<and> m_context c' = None \<and>
            (last (new_calls c c') = EvFree \<or>
             on_connect env = ConnectNull \<and> m_context c = None \<and>
             new_calls c c' = [EvConnect (c_string (Some (m_ip c))) (m_port c) False])) \<and>
         (reaches_transport op \<longrightarrow>
            (\<exists>cmd. new_calls c c' =
               (if has_context c then []
                else EvConnect (c_string (Some (m_ip c))) (m_port c) (connect_ok env)
                       # (if connect_errored env then [EvFree] else [])) @
               (if has_context c \<or> connect_ok env then
                  (case on_command env of
                     ReplyOk r \<Rightarrow> [EvCommand cmd True]
                   | ReplyNull e s \<Rightarrow> [EvCommand cmd False, EvFree])
                else [])) \<and>
            (m_context c' \<noteq> None) = (\<exists>r. transport_answers env c r)) \<and>
         (reaches_transport op \<and> m_context c = None \<longrightarrow>
            (\<exists>tl. new_calls c c' =
               EvConnect (c_string (Some (m_ip c))) (m_port c) (connect_ok env) # tl)) \<and>
         (\<not> reaches_transport op \<longrightarrow>
            \<not> ok \<and> new_calls c c' = [] \<and> m_context c' = m_context c) \<and>
         (conn_inv c \<longrightarrow> conn_inv c') \<and>
         (conn_inv c \<and> m_context c' \<noteq> None \<longrightarrow>
            (\<exists>pre ip port post. calls c' = pre @ EvConnect ip port True # post \<and>
               list_all ok_command post)) \<and>
         (\<forall>env0 ip_port steps. RedisClient_new env0 ip_port = Inr c \<longrightarrow>
            conn_inv (run_all steps c'))"
proof -
  have shape: "if reaches_transport op then \<exists>cmd. through env cmd c (ok, c')
               else untouched c (ok, c')"
    using run_shape [of op env c] by (simp only: res)
  have via: "new_calls c c' = new_calls c (snd (run_command env cmd c)) \<and>
             calls c' = calls (snd (run_command env cmd c)) \<and>
             m_context c' = m_context (snd (run_command env cmd c)) \<and>
             (ok \<longrightarrow> fst (run_command env cmd c) \<noteq> None)"
    if "through env cmd c (ok, c')" for cmd
    using that by (simp add: through_def same_conn_def new_calls_def)
  have idle: "\<not> ok \<and> new_calls c c' = [] \<and> m_context c' = m_context c \<and> calls c' = calls c"
    if "untouched c (ok, c')"
    using that by (simp add: untouched_def same_conn_def new_calls_def)
  have calls: "calls c' = calls c @ new_calls c c'"
  proof (cases "reaches_transport op")
    case True
    then obtain cmd where "through env cmd c (ok, c')"
      using shape by auto
    then show ?thesis
      using via [of cmd] run_command_calls [of env cmd c] by simp
  next
    case False
    then show ?thesis
      using shape idle by simp
  qed
  have fail: "\<not> ok \<and> m_context c' = None \<and>
            (last (new_calls c c') = EvFree \<or>
             on_connect env = ConnectNull \<and> m_context c = None \<and>
             new_calls c c' = [EvConnect (c_string (Some (m_ip c))) (m_port c) False])"
    if f: "list_ex failed_call (new_calls c c')"
  proof (cases "reaches_transport op")
    case True
    then obtain cmd where t: "through env cmd c (ok, c')"
      using shape by auto
    have f': "list_ex failed_call (new_calls c (snd (run_command env cmd c)))"
      using f via [OF t] by simp
    show ?thesis
      using via [OF t] run_command_failure [OF f'] failed_trace_released [OF f'] by auto
  next
    case False
    then show ?thesis
      using shape idle f by simp
  qed
  have reach: "(\<exists>cmd. new_calls c c' =
               (if has_context c then []
                else EvConnect (c_string (Some (m_ip c))) (m_port c) (connect_ok env)
                       # (if connect_errored env then [EvFree] else [])) @
               (if has_context c \<or> connect_ok env then
                  (case on_command env of
                     ReplyOk r \<Rightarrow> [EvCommand cmd True]
                   | ReplyNull e s \<Rightarrow> [EvCommand cmd False, EvFree])
                else [])) \<and>
            (m_context c' \<noteq> None) = (\<exists>r. transport_answers env c r)"
    if r: "reaches_transport op"
  proof -
    obtain cmd where t: "through env cmd c (ok, c')"
      using shape r by auto
    have "new_calls c c' =
               (if has_context c then []
                else EvConnect (c_string (Some (m_ip c))) (m_port c) (connect_ok env)
                       # (if connect_errored env then [EvFree] else [])) @
               (if has_context c \<or> connect_ok env then
                  (case on_command env of
                     ReplyOk r \<Rightarrow> [EvCommand cmd True]
                   | ReplyNull e s \<Rightarrow> [EvCommand cmd False, EvFree])
                else [])"
      using via [OF t] run_command_trace [of c env cmd] by simp
    moreover have "(m_context c' \<noteq> None) = (\<exists>r. transport_answers env c r)"
      using via [OF t] run_command_handle [of env cmd c] by simp
    ultimately show ?thesis
      by blast
  qed
  have reconnect: "\<exists>tl. new_calls c c' =
               EvConnect (c_string (Some (m_ip c))) (m_port c) (connect_ok env) # tl"
    if r: "reaches_transport op" and n: "m_context c = None"
  proof -
    obtain cmd where t: "through env cmd c (ok, c')"
      using shape r by auto
    show ?thesis
      using via [OF t] run_command_reconnects [OF n, of env cmd] by simp
  qed
  have rejected: "\<not> ok \<and> new_calls c c' = [] \<and> m_context c' = m_context c"
    if "\<not> reaches_transport op"
    using shape idle that by simp
  have inv: "conn_inv c'" if "conn_inv c"
    using conn_inv_run [OF that, of op env] res by simp
  have live: "\<exists>pre ip port post. calls c' = pre @ EvConnect ip port True # post \<and>
               list_all ok_command post" if "conn_inv c" "m_context c' \<noteq> None"
  proof -
    have "handle_live (calls c')"
      using inv [OF that(1)] that(2) by (simp add: conn_inv_def)
    then show ?thesis
      by (simp only: handle_live_iff)
  qed
  have reachable: "conn_inv (run_all steps c')" if "RedisClient_new env0 ip_port = Inr c"
    for env0 ip_port steps
    using inv [OF conn_inv_RedisClient_new [OF that]] conn_inv_run_all by blast
  show ?thesis
    using calls fail reach reconnect rejected inv live reachable by blast
qed

theorem transport_failure_releases_handle_witness:
  "list_ex failed_call
     (new_calls client_connected (snd (run (Get ''k'' [] None) env_broken client_connected))) \<and>
   \<not> fst (run (Get ''k'' [] None) env_broken client_connected) \<and>
   m_context (snd (run (Get ''k'' [] None) env_broken client_connected)) = None \<and>
   new_calls client_connected (snd (run (Get ''k'' [] None) env_broken client_connected)) =
     [EvCommand (Exec ''GET %b'' [ArgB ''k'']) False, EvFree] \<and>
   reaches_transport (SelectDb 0) \<and>
   new_calls (snd (run (Get ''k'' [] None) env_broken client_connected))
     (snd (run (SelectDb 0) (env_reply reply_status)
            (snd (run (Get ''k'' [] None) env_broken client_connected)))) =
     [EvConnect ''127.0.0.1'' 6379 True, EvCommand (Exec ''SELECT %d'' [ArgD 0]) True] \<and>
   m_context (snd (run (SelectDb 0) (env_reply reply_status)
            (snd (run (Get ''k'' [] None) env_broken client_connected)))) \<noteq> None \<and>
   \<not> reaches_transport (SetOp ''k'' ''v'' None 7) \<and>
   \<not> fst (run (SetOp ''k'' ''v'' None 7) (env_reply reply_status) client_connected) \<and>
   new_calls client_connected
     (snd (run (SetOp ''k'' ''v'' None 7) (env_reply reply_status) client_connected)) = [] \<and>
   conn_inv client_connected \<and>
   conn_inv (snd (run (Get ''k'' [] None) env_broken client_connected)) \<and>
   RedisClient_new (env_reply reply_status) ''127.0.0.1:6379'' = Inr client_connected \<and>
   conn_inv (run_all [(SelectDb 0, env_reply reply_status)]
               (snd (run (Get ''k'' [] None) env_broken client_connected)))"
proof -
  let ?g = "Get ''k'' [] None"
  let ?d = "SelectDb 0"
  let ?s = "SetOp ''k'' ''v'' None 7"
  let ?c1 = "snd (run ?g env_broken client_connected)"
  let ?c2 = "snd (run ?d (env_reply reply_status) ?c1)"
  let ?c3 = "snd (run ?s (env_reply reply_status) client_connected)"
  have r1: "run ?g env_broken client_connected = (fst (run ?g env_broken client_connected), ?c1)"
    by simp
  have r2: "run ?d (env_reply reply_status) ?c1 =
      (fst (run ?d (env_reply reply_status) ?c1), ?c2)"
    by simp
  have r3: "run ?s (env_reply reply_status) client_connected =
      (fst (run ?s (env_reply reply_status) client_connected), ?c3)"
    by simp
  have f: "list_ex failed_call (new_calls client_connected ?c1)"
    by code_simp
  have t1: "new_calls client_connected ?c1 =
      [EvCommand (Exec ''GET %b'' [ArgB ''k'']) False, EvFree]"
    by code_simp
  have i: "conn_inv client_connected"
    by code_simp
  have rd: "reaches_transport ?d"
    by simp
  have rs: "\<not> reaches_transport ?s"
    by (simp add: valid_op_type_def set_op_type_defs)
  have t2: "new_calls ?c1 ?c2 =
     [EvConnect ''127.0.0.1'' 6379 True, EvCommand (Exec ''SELECT %d'' [ArgD 0]) True]"
    by code_simp
  have m: "m_context ?c2 \<noteq> None"
    by code_simp
  have k: "RedisClient_new (env_reply reply_status) ''127.0.0.1:6379'' = Inr client_connected"
    by code_simp
  note w1 = transport_failure_releases_handle [OF r1]
  note w2 = transport_failure_releases_handle [OF r2]
  note w3 = transport_failure_releases_handle [OF r3]
  have a: "\<not> fst (run ?g env_broken client_connected) \<and> m_context ?c1 = None \<and> conn_inv ?c1"
    using w1 f i by blast
  have b: "\<exists>tl. new_calls ?c1 ?c2 =
      EvConnect (c_string (Some (m_ip ?c1))) (m_port ?c1) (connect_ok (env_reply reply_status)) # tl"
    using w2 rd a by blast
  have d: "\<not> fst (run ?s (env_reply reply_status) client_connected) \<and>
           new_calls client_connected ?c3 = []"
    using w3 rs by blast
  have e: "conn_inv (run_all [(?d, env_reply reply_status)] ?c1)"
    using w1 k by blast
  show ?thesis
    using f t1 rd t2 m rs i k a d e by simp
qed

end
